theory Spec2Isabelle
  imports Main "HOL-Library.Word" "HOL-Library.Signed_Division"
begin

unbundle bit_operations_syntax

section \<open>Bitboard primitives (bitboard.h, bitboard.cpp)\<close>

type_synonym Bitboard = "64 word"

text \<open>\<open>index_of_mask\<close> is the loop \<open>while ((lsb_mask >> index) != 1) ++index\<close>.
  A shift by 64 or more is undefined in C++; the model stops the loop there. For the
  non-zero masks the callers pass, the loop ends at an index below 64
  (lemma \<open>index_of_lsb_mask\<close>), so the bound is never reached.\<close>

function index_of_mask_from :: "64 word \<Rightarrow> nat \<Rightarrow> nat" where
  "index_of_mask_from lsb_mask index =
     (if drop_bit index lsb_mask \<noteq> 1 \<and> index < 64
      then index_of_mask_from lsb_mask (index + 1) else index)"
  by pat_completeness auto
termination by (relation "measure (\<lambda>(m, i). 64 - i)") auto
declare index_of_mask_from.simps [simp del]

definition index_of_mask :: "64 word \<Rightarrow> nat" where
  "index_of_mask lsb_mask = index_of_mask_from lsb_mask 0"

text \<open>\<open>pop_lsb\<close> mutates the bitboard and returns the index; the model returns both.
  The \<open>uint8_t\<close> results are natural numbers below 256.\<close>

definition pop_lsb :: "Bitboard \<Rightarrow> nat \<times> Bitboard" where
  "pop_lsb bitboard =
     (if bitboard = 0 then (65, bitboard)
      else let lsb_mask = bitboard AND (NOT bitboard + 1);
               index = index_of_mask lsb_mask
           in (index, bitboard AND NOT lsb_mask))"

definition get_lsb_index :: "Bitboard \<Rightarrow> nat" where
  "get_lsb_index bitboard =
     (if bitboard = 0 then 65 else index_of_mask (bitboard AND (NOT bitboard + 1)))"

text \<open>\<open>get_msb_index\<close> counts \<open>index\<close> down from 63 while the bit is clear. On a
  non-zero bitboard the loop stops at a set bit (lemma \<open>msb_loop_spec\<close>); the model
  also stops at 0, where the \<open>uint8_t\<close> would wrap.\<close>

function msb_loop :: "Bitboard \<Rightarrow> nat \<Rightarrow> nat" where
  "msb_loop bitboard index =
     (if (drop_bit index bitboard) AND 1 = 0 \<and> 0 < index
      then msb_loop bitboard (index - 1) else index)"
  by pat_completeness auto
termination by (relation "measure (\<lambda>(b, i). i)") auto
declare msb_loop.simps [simp del]

definition get_msb_index :: "Bitboard \<Rightarrow> nat" where
  "get_msb_index bitboard = (if bitboard = 0 then 65 else msb_loop bitboard 63)"

lemma odd_and_neg:
  fixes v :: "'a::len word"
  assumes "odd v"
  shows "v AND - v = 1"
proof (rule bit_eqI)
  fix n
  assume "possible_bit TYPE('a word) n"
  show "bit (v AND - v) n \<longleftrightarrow> bit (1::'a word) n"
  proof (cases "n = 0")
    case True
    then show ?thesis using assms by (simp add: bit_0 even_and_iff)
  next
    case False
    then have "bit v n = bit (v - 1) n" using assms odd_bit_iff_bit_pred by blast
    then show ?thesis using False
      by (simp add: bit_and_iff minus_eq_not_minus_1 bit_not_iff bit_1_iff)
  qed
qed

definition lsb_of :: "'a::len word \<Rightarrow> nat" where
  "lsb_of w = (LEAST i. bit w i)"

lemma lsb_of_bit: "w \<noteq> 0 \<Longrightarrow> bit w (lsb_of w)"
proof -
  assume "w \<noteq> 0"
  then obtain i where "bit w i" by (auto simp: bit_eq_iff)
  then show ?thesis unfolding lsb_of_def by (rule LeastI)
qed

lemma lsb_of_least: "j < lsb_of w \<Longrightarrow> \<not> bit w j"
  unfolding lsb_of_def by (rule not_less_Least)

lemma lsb_mask_eq:
  fixes w :: "'a::len word"
  assumes "w \<noteq> 0"
  shows "w AND (NOT w + 1) = push_bit (lsb_of w) 1"
proof -
  let ?k = "lsb_of w"
  let ?v = "drop_bit ?k w"
  have tb: "take_bit ?k w = 0"
    by (rule bit_eqI) (simp add: bit_take_bit_iff lsb_of_least)
  have w: "w = push_bit ?k ?v"
    using tb by (metis add.right_neutral bits_ident)
  have odd: "odd ?v" using lsb_of_bit[OF assms] by (simp add: bit_iff_odd_drop_bit)
  have "w AND - w = push_bit ?k ?v AND - push_bit ?k ?v" using w by simp
  also have "\<dots> = push_bit ?k (?v AND - ?v)"
    by (simp add: push_bit_and push_bit_minus)
  also have "\<dots> = push_bit ?k 1" using odd_and_neg[OF odd] by simp
  finally show ?thesis by (simp add: minus_eq_not_plus_1)
qed


lemma lsb_of_lt: "(w::64 word) \<noteq> 0 \<Longrightarrow> lsb_of w < 64"
  using lsb_of_bit[of w] bit_imp_le_length[of w "lsb_of w"] by simp

lemma drop_bit_single:
  assumes "k < 64" "i \<le> k"
  shows "drop_bit i (push_bit k 1 :: 64 word) = 1 \<longleftrightarrow> i = k"
proof
  assume "drop_bit i (push_bit k 1 :: 64 word) = 1"
  then have "bit (drop_bit i (push_bit k 1 :: 64 word)) 0" by (simp add: bit_0)
  then show "i = k" by (simp add: bit_drop_bit_eq bit_push_bit_iff bit_1_iff bit_exp_iff)
next
  assume "i = k"
  then show "drop_bit i (push_bit k 1 :: 64 word) = 1"
    using assms by (intro bit_eqI) (auto simp: bit_drop_bit_eq bit_push_bit_iff bit_1_iff bit_exp_iff)
qed

lemma index_of_mask_from_single:
  "k < 64 \<Longrightarrow> i \<le> k \<Longrightarrow> index_of_mask_from (push_bit k 1) i = k"
proof (induction "k - i" arbitrary: i)
  case 0
  then have "i = k" by simp
  then show ?case using 0 drop_bit_single[of k k] by (subst index_of_mask_from.simps) simp
next
  case (Suc d)
  then have ne: "i \<noteq> k" and lt: "i < 64" and le: "Suc i \<le> k" by auto
  have "drop_bit i (push_bit k 1 :: 64 word) \<noteq> 1"
    using drop_bit_single[of k i] Suc.prems ne by simp
  then have "index_of_mask_from (push_bit k 1) i = index_of_mask_from (push_bit k 1) (i + 1)"
    using lt by (subst index_of_mask_from.simps) simp
  also have "\<dots> = k" using Suc.hyps(1)[of "i + 1"] Suc.hyps(2) Suc.prems le by simp
  finally show ?case .
qed

lemma index_of_lsb_mask:
  "(b::64 word) \<noteq> 0 \<Longrightarrow> index_of_mask (b AND (NOT b + 1)) = lsb_of b"
  using index_of_mask_from_single[of "lsb_of b" 0] lsb_of_lt[of b] lsb_mask_eq[of b]
  by (simp add: index_of_mask_def)

lemma get_lsb_index_eq: "b \<noteq> 0 \<Longrightarrow> get_lsb_index b = lsb_of b"
  by (simp add: get_lsb_index_def index_of_lsb_mask)

lemma pop_lsb_eq:
  "b \<noteq> 0 \<Longrightarrow> pop_lsb b = (lsb_of b, b AND NOT (push_bit (lsb_of b) 1))"
proof -
  assume nz: "b \<noteq> 0"
  have m: "b AND (NOT b + 1) = push_bit (lsb_of b) 1" by (rule lsb_mask_eq) (rule nz)
  have i: "index_of_mask (b AND (NOT b + 1)) = lsb_of b" by (rule index_of_lsb_mask) (rule nz)
  show ?thesis unfolding pop_lsb_def Let_def i unfolding m using nz by simp
qed

lemma bit_clear_lsb:
  "bit ((b::64 word) AND NOT (push_bit k 1)) j \<longleftrightarrow> bit b j \<and> j \<noteq> k"
  by (auto simp: bit_and_iff bit_not_iff bit_push_bit_iff bit_1_iff bit_exp_iff dest: bit_imp_le_length)

lemma msb_test: "(drop_bit index (b::64 word)) AND 1 = 0 \<longleftrightarrow> \<not> bit b index"
  by (simp add: and_one_eq bit_iff_odd_drop_bit even_iff_mod_2_eq_zero)

lemma msb_loop_spec:
  assumes "\<exists>j\<le>i. bit b j" "\<forall>j>i. \<not> bit b j"
  shows "bit b (msb_loop b i) \<and> (\<forall>j > msb_loop b i. \<not> bit b j)"
  using assms
proof (induction b i rule: msb_loop.induct)
  case (1 b i)
  show ?case
  proof (cases "bit b i")
    case True
    then have "msb_loop b i = i" by (subst msb_loop.simps) (simp add: msb_test)
    then show ?thesis using "1.prems" True by simp
  next
    case False
    then have pos: "0 < i" using "1.prems"(1) by (metis le_zero_eq neq0_conv)
    have ex: "\<exists>j\<le>i - 1. bit b j" using "1.prems"(1) False
      by (metis Suc_pred' le_SucE pos)
    have all: "\<forall>j>i - 1. \<not> bit b j" using "1.prems"(2) False pos
      by (metis Suc_pred' less_Suc_eq_le le_neq_implies_less not_less)
    have "msb_loop b i = msb_loop b (i - 1)" using False pos
      by (subst msb_loop.simps) (simp add: msb_test)
    then show ?thesis using "1.IH" False pos ex all by (simp add: msb_test)
  qed
qed

text \<open>Claim C10. On the empty bitboard \<open>pop_lsb\<close>, \<open>get_lsb_index\<close> and
  \<open>get_msb_index\<close> return 65 (\<open>Square::None\<close>) and \<open>pop_lsb\<close> leaves the bitboard
  unchanged; on a non-empty bitboard \<open>pop_lsb\<close> returns the index of the least
  significant set bit (a square below 64) and clears exactly that bit.\<close>

theorem empty_bitboard_sentinel_and_pop_lsb:
  "pop_lsb 0 = (65, 0) \<and> get_lsb_index 0 = 65 \<and> get_msb_index 0 = 65 \<and>
   (b \<noteq> 0 \<longrightarrow>
      (case pop_lsb b of (i, b') \<Rightarrow>
         i < 64 \<and> bit b i \<and> (\<forall>j<i. \<not> bit b j) \<and> (\<forall>j. bit b' j \<longleftrightarrow> bit b j \<and> j \<noteq> i)))"
proof -
  have "b \<noteq> 0 \<longrightarrow>
      (case pop_lsb b of (i, b') \<Rightarrow>
         i < 64 \<and> bit b i \<and> (\<forall>j<i. \<not> bit b j) \<and> (\<forall>j. bit b' j \<longleftrightarrow> bit b j \<and> j \<noteq> i))"
    using bit_clear_lsb[of b "lsb_of b"]
    by (simp add: pop_lsb_eq lsb_of_lt lsb_of_bit lsb_of_least del: push_bit_of_1)
  then show ?thesis
    by (simp add: pop_lsb_def get_lsb_index_def get_msb_index_def)
qed

theorem empty_bitboard_sentinel_and_pop_lsb_witness:
  "pop_lsb 0 = (65, 0) \<and> get_lsb_index 0 = 65 \<and> get_msb_index 0 = 65 \<and>
   (12 \<noteq> (0::64 word)) \<and> pop_lsb 12 = (2, 8)"
  using empty_bitboard_sentinel_and_pop_lsb[of 12]
  by (simp add: pop_lsb_def Let_def index_of_mask_def index_of_mask_from.simps)

section \<open>Types (types.h)\<close>

datatype Color = White | Black | Color_NB | Color_None

datatype PieceType = Pawn | Knight | Bishop | Rook | Queen | King | PieceType_NB

datatype Piece =
    WhitePawn | WhiteKnight | WhiteBishop | WhiteRook | WhiteQueen | WhiteKing
  | BlackPawn | BlackKnight | BlackBishop | BlackRook | BlackQueen | BlackKing
  | Piece_NB | Piece_None

datatype MoveType = Normal | Capture | Castle | EnPassant | Promotion | MoveType_NB

text \<open>A \<open>Square\<close> is the enum's integer value: 0..63 are A1..H8 (file-major),
  64 is \<open>Square::NB\<close> and 65 is \<open>Square::None\<close>. The code casts arbitrary
  \<open>int\<close>s to \<open>Square\<close>, so the model keeps \<open>int\<close>.\<close>

type_synonym Square = int

abbreviation (input) "A1 \<equiv> (0::int)"
abbreviation (input) "B1 \<equiv> (1::int)"
abbreviation (input) "C1 \<equiv> (2::int)"
abbreviation (input) "D1 \<equiv> (3::int)"
abbreviation (input) "E1 \<equiv> (4::int)"
abbreviation (input) "F1 \<equiv> (5::int)"
abbreviation (input) "G1 \<equiv> (6::int)"
abbreviation (input) "H1 \<equiv> (7::int)"
abbreviation (input) "A8 \<equiv> (56::int)"
abbreviation (input) "B8 \<equiv> (57::int)"
abbreviation (input) "C8 \<equiv> (58::int)"
abbreviation (input) "D8 \<equiv> (59::int)"
abbreviation (input) "E8 \<equiv> (60::int)"
abbreviation (input) "F8 \<equiv> (61::int)"
abbreviation (input) "G8 \<equiv> (62::int)"
abbreviation (input) "H8 \<equiv> (63::int)"
abbreviation (input) "Square_NB \<equiv> (64::int)"
abbreviation (input) "Square_None \<equiv> (65::int)"


fun int_of_Color :: "Color \<Rightarrow> int" where
  "int_of_Color White = 0"
| "int_of_Color Black = 1"
| "int_of_Color Color_NB = 2"
| "int_of_Color Color_None = 3"

fun int_of_PieceType :: "PieceType \<Rightarrow> int" where
  "int_of_PieceType Pawn = 0"
| "int_of_PieceType Knight = 1"
| "int_of_PieceType Bishop = 2"
| "int_of_PieceType Rook = 3"
| "int_of_PieceType Queen = 4"
| "int_of_PieceType King = 5"
| "int_of_PieceType PieceType_NB = 6"

fun int_of_Piece :: "Piece \<Rightarrow> int" where
  "int_of_Piece WhitePawn = 0"
| "int_of_Piece WhiteKnight = 1"
| "int_of_Piece WhiteBishop = 2"
| "int_of_Piece WhiteRook = 3"
| "int_of_Piece WhiteQueen = 4"
| "int_of_Piece WhiteKing = 5"
| "int_of_Piece BlackPawn = 6"
| "int_of_Piece BlackKnight = 7"
| "int_of_Piece BlackBishop = 8"
| "int_of_Piece BlackRook = 9"
| "int_of_Piece BlackQueen = 10"
| "int_of_Piece BlackKing = 11"
| "int_of_Piece Piece_NB = 12"
| "int_of_Piece Piece_None = 13"

text \<open>\<open>static_cast\<close> from the integer back to the enum. Integers that name no
  enumerator never reach these casts in the code modelled here; the model sends them to
  the \<open>NB\<close> enumerator.\<close>

definition PieceType_of_int :: "int \<Rightarrow> PieceType" where
  "PieceType_of_int n =
     (if n = 0 then Pawn else if n = 1 then Knight else if n = 2 then Bishop
      else if n = 3 then Rook else if n = 4 then Queen else if n = 5 then King
      else PieceType_NB)"

definition Color_of_int :: "int \<Rightarrow> Color" where
  "Color_of_int n =
     (if n = 0 then White else if n = 1 then Black else if n = 3 then Color_None else Color_NB)"

definition Piece_of_int :: "int \<Rightarrow> Piece" where
  "Piece_of_int n =
     (if n = 0 then WhitePawn else if n = 1 then WhiteKnight else if n = 2 then WhiteBishop
      else if n = 3 then WhiteRook else if n = 4 then WhiteQueen else if n = 5 then WhiteKing
      else if n = 6 then BlackPawn else if n = 7 then BlackKnight else if n = 8 then BlackBishop
      else if n = 9 then BlackRook else if n = 10 then BlackQueen else if n = 11 then BlackKing
      else if n = 13 then Piece_None else Piece_NB)"

text \<open>C++ integer division and remainder truncate towards zero.\<close>

definition file_of :: "Square \<Rightarrow> int" where
  "file_of square = square smod 8"

definition rank_of :: "Square \<Rightarrow> int" where
  "rank_of square = square sdiv 8"

definition make_square :: "int \<Rightarrow> int \<Rightarrow> Square" where
  "make_square file rank = rank * 8 + file"

definition make_piece :: "Color \<Rightarrow> PieceType \<Rightarrow> Piece" where
  "make_piece color piece_type = Piece_of_int (int_of_Color color * 6 + int_of_PieceType piece_type)"

definition type_of :: "Piece \<Rightarrow> PieceType" where
  "type_of piece = PieceType_of_int (int_of_Piece piece smod 6)"

definition color_of :: "Piece \<Rightarrow> Color" where
  "color_of piece =
     (if piece = Piece_None \<or> piece = Piece_NB then Color_None
      else Color_of_int (int_of_Piece piece sdiv 6))"

record Move =
  from_square :: Square
  to_square :: Square
  move_type :: MoveType
  promotion_piece :: Piece
  captured_piece :: Piece
  previous_castling_rights :: "8 word"
  previous_en_passant_square :: Square
  previous_halfmove_clock :: int

text \<open>The two constructors of \<open>Move\<close>.\<close>

definition Move_default :: Move where
  "Move_default = \<lparr> from_square = Square_None, to_square = Square_None, move_type = Normal,
     promotion_piece = Piece_None, captured_piece = Piece_None, previous_castling_rights = 0,
     previous_en_passant_square = Square_None, previous_halfmove_clock = 0 \<rparr>"

definition mk_Move :: "Square \<Rightarrow> Square \<Rightarrow> MoveType \<Rightarrow> Piece \<Rightarrow> Move" where
  "mk_Move from to type promotion = \<lparr> from_square = from, to_square = to, move_type = type,
     promotion_piece = promotion, captured_piece = Piece_None, previous_castling_rights = 0,
     previous_en_passant_square = Square_None, previous_halfmove_clock = 0 \<rparr>"

text \<open>\<open>Move::operator==\<close> compares the move description only.\<close>

definition move_eq :: "Move \<Rightarrow> Move \<Rightarrow> bool" where
  "move_eq a b \<longleftrightarrow> from_square a = from_square b \<and> to_square a = to_square b \<and>
     move_type a = move_type b \<and> promotion_piece a = promotion_piece b"

section \<open>Transposition table (transposition\_table.h, transposition\_table.cpp)\<close>

definition MAX_PLY :: int where "MAX_PLY = 64"
definition INFINITY_SCORE :: int where "INFINITY_SCORE = 1000000"
definition MATE_SCORE :: int where "MATE_SCORE = 100000"
definition CHECK_FREQUENCY :: int where "CHECK_FREQUENCY = 2048"

datatype BoundType = NONE | EXACT | LOWER_BOUND | UPPER_BOUND

fun u8_of_BoundType :: "BoundType \<Rightarrow> 8 word" where
  "u8_of_BoundType NONE = 0"
| "u8_of_BoundType EXACT = 1"
| "u8_of_BoundType LOWER_BOUND = 2"
| "u8_of_BoundType UPPER_BOUND = 3"

text \<open>A stored byte that names no enumerator behaves like \<open>NONE\<close> in the only
  consumer (the \<open>default\<close> branch of the switch in \<open>negamax\<close>).\<close>

definition BoundType_of_u8 :: "8 word \<Rightarrow> BoundType" where
  "BoundType_of_u8 b =
     (if b = 1 then EXACT else if b = 2 then LOWER_BOUND else if b = 3 then UPPER_BOUND else NONE)"

text \<open>\<open>score\<close> and \<open>depth\<close> are \<open>int16_t\<close>: they are written by
  \<open>static_cast<int16_t>\<close> (reduction modulo \<open>2^16\<close>) and read back as signed.\<close>

text \<open>The fields of \<open>TTEntry\<close> carry the prefix \<open>tte_\<close>: the search uses \<open>score\<close>,
  \<open>depth\<close> and \<open>best_move\<close> as variable names.\<close>

record TTEntry =
  tte_key :: "64 word"
  tte_score :: "16 word"
  tte_depth :: "16 word"
  tte_bound_type :: "8 word"
  tte_age :: "8 word"
  tte_best_move :: Move

definition TTEntry_default :: TTEntry where
  "TTEntry_default = \<lparr> tte_key = 0, tte_score = 0, tte_depth = word_of_int (- 1), tte_bound_type = 0, tte_age = 0,
     tte_best_move = Move_default \<rparr>"

definition is_valid :: "TTEntry \<Rightarrow> bool" where
  "is_valid e \<longleftrightarrow> sint (tte_depth e) \<ge> 0"

text \<open>The members \<open>table_\<close>, \<open>table_size_\<close> and \<open>current_age_\<close> lose their
  trailing underscore, which Isabelle names cannot end with.\<close>

record TranspositionTable =
  table :: "TTEntry list"
  table_size :: nat
  current_age :: "8 word"

text \<open>Class invariant established by \<open>resize\<close>: the vector has \<open>table_size_\<close>
  entries. \<open>get_index\<close> divides by \<open>table_size_\<close>, so the table must not be empty.\<close>

definition tt_ok :: "TranspositionTable \<Rightarrow> bool" where
  "tt_ok tt \<longleftrightarrow> 0 < table_size tt \<and> length (table tt) = table_size tt"

definition get_index :: "TranspositionTable \<Rightarrow> 64 word \<Rightarrow> nat" where
  "get_index tt k = unat k mod table_size tt"

definition should_replace :: "TTEntry \<Rightarrow> int \<Rightarrow> 8 word \<Rightarrow> bool" where
  "should_replace existing new_depth new_age =
     (if \<not> is_valid existing then True
      else if new_age \<noteq> tte_age existing then True
      else new_depth \<ge> sint (tte_depth existing))"

definition store :: "TranspositionTable \<Rightarrow> 64 word \<Rightarrow> int \<Rightarrow> int \<Rightarrow> BoundType \<Rightarrow> Move \<Rightarrow> int
    \<Rightarrow> TranspositionTable" where
  "store tt k sc d bound mv ply =
     (let index = get_index tt k;
          entry = table tt ! index;
          store_score = (if sc > MATE_SCORE - MAX_PLY then sc + ply
                         else if sc < - MATE_SCORE + MAX_PLY then sc - ply
                         else sc)
      in if \<not> is_valid entry \<or> should_replace entry d (current_age tt)
         then tt\<lparr> table := (table tt)[index :=
                 \<lparr> tte_key = k, tte_score = word_of_int store_score, tte_depth = word_of_int d,
                   tte_bound_type = u8_of_BoundType bound, tte_age = current_age tt, tte_best_move = mv \<rparr>] \<rparr>
         else tt)"

text \<open>\<open>probe\<close> returns \<open>false\<close> (\<open>None\<close>) or \<open>true\<close> with the four
  out-parameters \<open>(score, depth, bound, best_move)\<close>.\<close>

definition probe :: "TranspositionTable \<Rightarrow> 64 word \<Rightarrow> int \<Rightarrow> (int \<times> int \<times> BoundType \<times> Move) option" where
  "probe tt k ply =
     (let index = get_index tt k;
          entry = table tt ! index
      in if \<not> is_valid entry \<or> tte_key entry \<noteq> k then None
         else let sc = sint (tte_score entry);
                  d = sint (tte_depth entry);
                  bound = BoundType_of_u8 (tte_bound_type entry);
                  mv = tte_best_move entry;
                  sc' = (if sc > MATE_SCORE - MAX_PLY then sc - ply
                         else if sc < - MATE_SCORE + MAX_PLY then sc + ply
                         else sc)
              in Some (sc', d, bound, mv))"

definition new_search :: "TranspositionTable \<Rightarrow> TranspositionTable" where
  "new_search tt = tt\<lparr> current_age := current_age tt + 1 \<rparr>"

lemma BoundType_roundtrip: "BoundType_of_u8 (u8_of_BoundType b) = b"
  by (cases b) (simp_all add: BoundType_of_u8_def)

lemma sint16_roundtrip: "- 32768 \<le> x \<Longrightarrow> x \<le> 32767 \<Longrightarrow> sint (word_of_int x :: 16 word) = x"
  by (simp add: int_word_sint)

text \<open>The replacement test of \<open>store\<close>, read off the table before the store.\<close>

definition slot_replaceable :: "TranspositionTable \<Rightarrow> 64 word \<Rightarrow> int \<Rightarrow> bool" where
  "slot_replaceable tt k d \<longleftrightarrow>
     (let e = table tt ! get_index tt k
      in \<not> is_valid e \<or> tte_age e \<noteq> current_age tt \<or> d \<ge> sint (tte_depth e))"

text \<open>Claim C5 (amended). When the slot of \<open>key\<close> is replaceable (empty, of another
  age, or not deeper than the new entry), the depth fits \<open>int16_t\<close> and is not
  negative, and the score fits \<open>int16_t\<close>, a probe with the same key and ply right
  after the store returns true with exactly the stored score, depth, bound and move.
  Such a score lies outside the mate window, so no ply offset is applied either way.\<close>

theorem probe_after_store:
  assumes "tt_ok tt"
      and "slot_replaceable tt k d"
      and "0 \<le> d" "d \<le> 32767"
      and "- 32768 \<le> sc" "sc \<le> 32767"
  shows "probe (store tt k sc d bound mv ply) k ply = Some (sc, d, bound, mv)"
proof -
  have idx: "get_index tt k < length (table tt)"
    using assms(1) by (simp add: tt_ok_def get_index_def)
  have rep: "\<not> is_valid (table tt ! get_index tt k) \<or>
             should_replace (table tt ! get_index tt k) d (current_age tt)"
    using assms(2) by (auto simp: slot_replaceable_def should_replace_def Let_def)
  have nomate: "\<not> sc > MATE_SCORE - MAX_PLY" "\<not> sc < - MATE_SCORE + MAX_PLY"
    using assms(5,6) by (simp_all add: MATE_SCORE_def MAX_PLY_def)
  have st: "store tt k sc d bound mv ply = tt\<lparr> table := (table tt)[get_index tt k :=
                 \<lparr> tte_key = k, tte_score = word_of_int sc, tte_depth = word_of_int d,
                   tte_bound_type = u8_of_BoundType bound, tte_age = current_age tt, tte_best_move = mv \<rparr>] \<rparr>"
    using rep nomate by (simp add: store_def Let_def)
  have gi: "get_index (store tt k sc d bound mv ply) k = get_index tt k"
    by (simp add: st get_index_def)
  show ?thesis
    using idx nomate assms(3-6)
    by (simp add: probe_def gi Let_def, simp add: st is_valid_def sint16_roundtrip BoundType_roundtrip)
qed


definition tt_single :: "TTEntry \<Rightarrow> TranspositionTable" where
  "tt_single e = \<lparr> table = [e], table_size = 1, current_age = 0 \<rparr>"

definition deep_entry :: TTEntry where
  "deep_entry = \<lparr> tte_key = 0, tte_score = 0, tte_depth = 5, tte_bound_type = 1, tte_age = 0, tte_best_move = Move_default \<rparr>"

theorem probe_after_store_witness:
  "tt_ok (tt_single TTEntry_default) \<and> slot_replaceable (tt_single TTEntry_default) 1 3 \<and>
   probe (store (tt_single TTEntry_default) 1 150 3 EXACT Move_default 2) 1 2
     = Some (150, 3, EXACT, Move_default)"
  using probe_after_store[of "tt_single TTEntry_default" 1 3 150 EXACT Move_default 2]
  by (simp add: tt_ok_def slot_replaceable_def tt_single_def get_index_def TTEntry_default_def
        is_valid_def)

text \<open>The claim as stated fails twice. A score inside the mate window does not fit the
  16-bit field: 99990 stored at ply 2 comes back as -31080. And a store into a slot that
  holds a deeper entry of the same age is dropped, so the probe misses.\<close>

theorem probe_after_store_counterexample:
  "probe (store (tt_single TTEntry_default) 1 99990 3 EXACT Move_default 2) 1 2
     = Some (- 31080, 3, EXACT, Move_default) \<and>
   probe (store (tt_single deep_entry) 1 10 3 EXACT Move_default 0) 1 0 = None"
  by (simp add: tt_single_def deep_entry_def TTEntry_default_def store_def probe_def get_index_def
        is_valid_def should_replace_def MATE_SCORE_def MAX_PLY_def BoundType_of_u8_def Let_def)

section \<open>Rays and slider attacks (bitboard.cpp)\<close>

datatype Direction = North | East | South | West | NorthEast | SouthEast | SouthWest | NorthWest

fun int_of_Direction :: "Direction \<Rightarrow> int" where
  "int_of_Direction North = 8"
| "int_of_Direction East = 1"
| "int_of_Direction South = - 8"
| "int_of_Direction West = - 1"
| "int_of_Direction NorthEast = 9"
| "int_of_Direction SouthEast = - 7"
| "int_of_Direction SouthWest = - 9"
| "int_of_Direction NorthWest = 7"

text \<open>\<open>set_bit\<close>, \<open>clear_bit\<close> and \<open>is_bit_set\<close> cast the square to \<open>uint8_t\<close> and
  shift \<open>1ULL\<close> by it. A shift by 64 or more is undefined in C++; in the model the
  shifted word is then 0. Every theorem below keeps the squares in 0..63.\<close>

definition bit_index :: "Square \<Rightarrow> nat" where
  "bit_index square = nat (square mod 256)"

definition set_bit_bb :: "Bitboard \<Rightarrow> Square \<Rightarrow> Bitboard" where
  "set_bit_bb bitboard square = bitboard OR push_bit (bit_index square) 1"

definition clear_bit_bb :: "Bitboard \<Rightarrow> Square \<Rightarrow> Bitboard" where
  "clear_bit_bb bitboard square = bitboard AND NOT (push_bit (bit_index square) 1)"

definition is_bit_set :: "Bitboard \<Rightarrow> Square \<Rightarrow> bool" where
  "is_bit_set bitboard square \<longleftrightarrow> bitboard AND push_bit (bit_index square) 1 \<noteq> 0"

text \<open>The loop bound of \<open>generate_ray\<close>: the loop runs \<open>i\<close> from 1 while
  \<open>i < ray_bound\<close> (for South and West the source writes \<open>i <= rank\<close>, \<open>i <= file\<close>).\<close>

fun ray_bound :: "Direction \<Rightarrow> Square \<Rightarrow> int" where
  "ray_bound North square = 8 - rank_of square"
| "ray_bound South square = rank_of square + 1"
| "ray_bound East square = 8 - file_of square"
| "ray_bound West square = file_of square + 1"
| "ray_bound NorthEast square = min (8 - rank_of square) (8 - file_of square)"
| "ray_bound NorthWest square = min (8 - rank_of square) (file_of square + 1)"
| "ray_bound SouthEast square = min (rank_of square + 1) (8 - file_of square)"
| "ray_bound SouthWest square = min (rank_of square + 1) (file_of square + 1)"

definition generate_ray :: "Square \<Rightarrow> Direction \<Rightarrow> Bitboard" where
  "generate_ray square direction =
     (let direction_offset = int_of_Direction direction;
          sq = square
      in foldl (\<lambda>ray i. set_bit_bb ray (sq + i * direction_offset)) 0
           [1 .. ray_bound direction square - 1])"

text \<open>\<open>init_ray_table\<close> fills \<open>ray_table[dir][sq]\<close> with \<open>generate_ray(sq, dir)\<close> for
  the squares 0..63; the lookup through \<open>all_directions\<close> finds the row of the direction.\<close>

definition ray_table :: "Direction \<Rightarrow> Square \<Rightarrow> Bitboard" where
  "ray_table dir square = generate_ray square dir"

definition bishop_directions :: "Direction list" where
  "bishop_directions = [NorthEast, NorthWest, SouthEast, SouthWest]"

definition rook_directions :: "Direction list" where
  "rook_directions = [North, East, South, West]"

text \<open>One round of the direction loop of \<open>bishop_attacks\<close>.\<close>

definition bishop_step :: "Square \<Rightarrow> Bitboard \<Rightarrow> Bitboard \<Rightarrow> Direction \<Rightarrow> Bitboard" where
  "bishop_step square occupied attacks dir =
     (let ray = ray_table dir square;
          attacks = attacks OR ray;
          blockers = ray AND occupied
      in if blockers \<noteq> 0
         then let blocker_sq = (if dir = NorthEast \<or> dir = NorthWest
                                then int (get_lsb_index blockers)
                                else int (get_msb_index blockers));
                  beyond_blocker = generate_ray blocker_sq dir
              in attacks AND NOT beyond_blocker
         else attacks)"

definition bishop_attacks :: "Square \<Rightarrow> Bitboard \<Rightarrow> Bitboard" where
  "bishop_attacks square occupied = foldl (bishop_step square occupied) 0 bishop_directions"

definition rook_step :: "Square \<Rightarrow> Bitboard \<Rightarrow> Bitboard \<Rightarrow> Direction \<Rightarrow> Bitboard" where
  "rook_step square occupied attacks dir =
     (let ray = ray_table dir square;
          attacks = attacks OR ray;
          blockers = ray AND occupied
      in if blockers \<noteq> 0
         then let blocker_sq = (if dir = North \<or> dir = East
                                then int (get_lsb_index blockers)
                                else int (get_msb_index blockers));
                  beyond_blocker = generate_ray blocker_sq dir
              in attacks AND NOT beyond_blocker
         else attacks)"

definition rook_attacks :: "Square \<Rightarrow> Bitboard \<Rightarrow> Bitboard" where
  "rook_attacks square occupied = foldl (rook_step square occupied) 0 rook_directions"

definition queen_attacks :: "Square \<Rightarrow> Bitboard \<Rightarrow> Bitboard" where
  "queen_attacks square occupied = bishop_attacks square occupied OR rook_attacks square occupied"


subsection \<open>Bits of the rays\<close>

lemma file_of_nonneg: "0 \<le> s \<Longrightarrow> file_of s = s mod 8"
  by (simp add: file_of_def signed_modulo_int_def sgn_if)

lemma rank_of_nonneg: "0 \<le> s \<Longrightarrow> rank_of s = s div 8"
  by (simp add: rank_of_def signed_divide_int_def sgn_if)

lemma bit_index_in_range: "0 \<le> t \<Longrightarrow> t < 64 \<Longrightarrow> bit_index t = nat t"
  by (simp add: bit_index_def)

lemma is_bit_set_iff: "0 \<le> t \<Longrightarrow> t < 64 \<Longrightarrow> is_bit_set b t \<longleftrightarrow> bit b (nat t)"
  by (simp add: is_bit_set_def bit_index_in_range and_exp_eq_0_iff_not_bit)

lemma bit_set_bit_bb:
  "0 \<le> t \<Longrightarrow> t < 64 \<Longrightarrow> bit (set_bit_bb b t) k \<longleftrightarrow> bit b k \<or> k = nat t"
  by (auto simp: set_bit_bb_def bit_index_in_range bit_or_iff bit_exp_iff)

lemma bit_clear_bit_bb:
  "0 \<le> t \<Longrightarrow> t < 64 \<Longrightarrow> bit (clear_bit_bb b t) k \<longleftrightarrow> bit b k \<and> k \<noteq> nat t"
  by (auto simp: clear_bit_bb_def bit_index_in_range bit_and_iff bit_not_iff bit_exp_iff
           dest: bit_imp_le_length)

lemma square_decomp:
  assumes "0 \<le> s" "s < 64"
  obtains r f where "s = 8 * r + f" "0 \<le> f" "f < 8" "0 \<le> r" "r < 8"
                    "file_of s = f" "rank_of s = r"
proof
  show "s = 8 * (s div 8) + s mod 8" by simp
  show "0 \<le> s mod 8" "s mod 8 < 8" by simp_all
  show "0 \<le> s div 8" "s div 8 < 8" using assms by simp_all
  show "file_of s = s mod 8" "rank_of s = s div 8"
    using assms by (simp_all add: file_of_nonneg rank_of_nonneg)
qed

lemma file_rank_of_make:
  assumes "0 \<le> f" "f < 8" "0 \<le> r"
  shows "file_of (8 * r + f) = f" "rank_of (8 * r + f) = r"
  using assms by (simp_all add: file_of_nonneg rank_of_nonneg)

lemma ray_in_range:
  assumes "0 \<le> s" "s < 64" "1 \<le> i" "i < ray_bound d s"
  shows "0 \<le> s + i * int_of_Direction d \<and> s + i * int_of_Direction d < 64"
proof -
  obtain r f where rf: "s = 8 * r + f" "0 \<le> f" "f < 8" "0 \<le> r" "r < 8"
                       "file_of s = f" "rank_of s = r"
    using square_decomp[OF assms(1,2)] by blast
  show ?thesis using assms(3,4) rf(2-5) unfolding rf(1)
    by (cases d) (simp_all add: file_rank_of_make)
qed

lemma file_rank_shift:
  assumes "x = 8 * r' + f'" "0 \<le> f'" "f' < 8" "0 \<le> r'"
  shows "file_of x = f' \<and> rank_of x = r'"
  using assms by (simp add: file_of_nonneg rank_of_nonneg)

lemma ray_bound_shift:
  assumes "0 \<le> s" "s < 64" "1 \<le> i" "i < ray_bound d s"
  shows "ray_bound d (s + i * int_of_Direction d) = ray_bound d s - i"
proof -
  obtain r f where rf: "s = 8 * r + f" "0 \<le> f" "f < 8" "0 \<le> r" "r < 8"
                       "file_of s = f" "rank_of s = r"
    using square_decomp[OF assms(1,2)] by blast
  show ?thesis
  proof (cases d)
    case North
    have b: "1 \<le> i" "i < ray_bound North s" using assms(3,4) North by simp_all
    have "file_of (s + i * 8) = f \<and> rank_of (s + i * 8) = r + i"
      using b rf by (intro file_rank_shift) simp_all
    then show ?thesis using North rf(6,7) by simp
  next
    case South
    have b: "1 \<le> i" "i < ray_bound South s" using assms(3,4) South by simp_all
    have "file_of (s + i * (- 8)) = f \<and> rank_of (s + i * (- 8)) = r - i"
      using b rf by (intro file_rank_shift) simp_all
    then show ?thesis using South rf(6,7) by simp
  next
    case East
    have b: "1 \<le> i" "i < ray_bound East s" using assms(3,4) East by simp_all
    have "file_of (s + i * 1) = f + i \<and> rank_of (s + i * 1) = r"
      using b rf by (intro file_rank_shift) simp_all
    then show ?thesis using East rf(6,7) by simp
  next
    case West
    have b: "1 \<le> i" "i < ray_bound West s" using assms(3,4) West by simp_all
    have "file_of (s + i * (- 1)) = f - i \<and> rank_of (s + i * (- 1)) = r"
      using b rf by (intro file_rank_shift) simp_all
    then show ?thesis using West rf(6,7) by simp
  next
    case NorthEast
    have b: "1 \<le> i" "i < ray_bound NorthEast s" using assms(3,4) NorthEast by simp_all
    have "file_of (s + i * 9) = f + i \<and> rank_of (s + i * 9) = r + i"
      using b rf by (intro file_rank_shift) simp_all
    then show ?thesis using NorthEast rf(6,7) by simp
  next
    case NorthWest
    have b: "1 \<le> i" "i < ray_bound NorthWest s" using assms(3,4) NorthWest by simp_all
    have "file_of (s + i * 7) = f - i \<and> rank_of (s + i * 7) = r + i"
      using b rf by (intro file_rank_shift) simp_all
    then show ?thesis using NorthWest rf(6,7) by simp
  next
    case SouthEast
    have b: "1 \<le> i" "i < ray_bound SouthEast s" using assms(3,4) SouthEast by simp_all
    have "file_of (s + i * (- 7)) = f + i \<and> rank_of (s + i * (- 7)) = r - i"
      using b rf by (intro file_rank_shift) simp_all
    then show ?thesis using SouthEast rf(6,7) by simp
  next
    case SouthWest
    have b: "1 \<le> i" "i < ray_bound SouthWest s" using assms(3,4) SouthWest by simp_all
    have "file_of (s + i * (- 9)) = f - i \<and> rank_of (s + i * (- 9)) = r - i"
      using b rf by (intro file_rank_shift) simp_all
    then show ?thesis using SouthWest rf(6,7) by simp
  qed
qed

lemma bit_foldl_set_bit:
  assumes "\<forall>i\<in>set is. 0 \<le> s + i * off \<and> s + i * off < 64"
  shows "bit (foldl (\<lambda>ray i. set_bit_bb ray (s + i * off)) r is) k
         \<longleftrightarrow> bit r k \<or> (\<exists>i\<in>set is. k = nat (s + i * off))"
  using assms
proof (induction "is" arbitrary: r)
  case Nil
  then show ?case by simp
next
  case (Cons a "is")
  then show ?case by (auto simp: bit_set_bit_bb)
qed

lemma bit_generate_ray:
  assumes "0 \<le> s" "s < 64"
  shows "bit (generate_ray s d) k
         \<longleftrightarrow> (\<exists>i. 1 \<le> i \<and> i < ray_bound d s \<and> int k = s + i * int_of_Direction d)"
proof -
  have rng: "\<forall>i\<in>set [1 .. ray_bound d s - 1].
               0 \<le> s + i * int_of_Direction d \<and> s + i * int_of_Direction d < 64"
    using ray_in_range[OF assms] by auto
  have "bit (generate_ray s d) k
        \<longleftrightarrow> (\<exists>i\<in>set [1 .. ray_bound d s - 1]. k = nat (s + i * int_of_Direction d))"
    unfolding generate_ray_def Let_def using bit_foldl_set_bit[OF rng, of 0 k] by simp
  also have "\<dots> \<longleftrightarrow> (\<exists>i. 1 \<le> i \<and> i < ray_bound d s \<and> k = nat (s + i * int_of_Direction d))"
    by auto
  also have "\<dots> \<longleftrightarrow> (\<exists>i. 1 \<le> i \<and> i < ray_bound d s \<and> int k = s + i * int_of_Direction d)"
    using ray_in_range[OF assms] by (metis nat_int int_nat_eq)
  finally show ?thesis .
qed


subsection \<open>The nearest blocker\<close>

definition on_ray :: "Direction \<Rightarrow> Square \<Rightarrow> nat \<Rightarrow> bool" where
  "on_ray d s k \<longleftrightarrow> (\<exists>i. 1 \<le> i \<and> i < ray_bound d s \<and> int k = s + i * int_of_Direction d)"

definition ray_visible :: "Direction \<Rightarrow> Square \<Rightarrow> Bitboard \<Rightarrow> nat \<Rightarrow> bool" where
  "ray_visible d s occ k \<longleftrightarrow>
     (\<exists>i. 1 \<le> i \<and> i < ray_bound d s \<and> int k = s + i * int_of_Direction d \<and>
          (\<forall>j. 1 \<le> j \<and> j < i \<longrightarrow> \<not> bit occ (nat (s + j * int_of_Direction d))))"

lemma off_nonzero: "int_of_Direction d \<noteq> 0"
  by (cases d) simp_all

lemma get_msb_index_spec:
  assumes "(b::64 word) \<noteq> 0"
  shows "bit b (get_msb_index b) \<and> (\<forall>j > get_msb_index b. \<not> bit b j)"
proof -
  obtain i where i: "bit b i" using assms by (auto simp: bit_eq_iff)
  then have "i < 64" using bit_imp_le_length[of b i] by simp
  then have ex: "\<exists>j\<le>63. bit b j" using i by (intro exI[of _ i]) simp
  have all: "\<forall>j>63. \<not> bit b j" using bit_imp_le_length[of b] by fastforce
  show ?thesis using msb_loop_spec[OF ex all] assms by (simp add: get_msb_index_def)
qed

lemma nearest_blocker:
  assumes s: "0 \<le> s" "s < 64"
      and nz: "generate_ray s d AND occ \<noteq> 0"
      and b: "b = (if 0 < int_of_Direction d then get_lsb_index (generate_ray s d AND occ)
                   else get_msb_index (generate_ray s d AND occ))"
  shows "\<exists>i0. 1 \<le> i0 \<and> i0 < ray_bound d s \<and> int b = s + i0 * int_of_Direction d \<and>
              bit occ b \<and> (\<forall>j. 1 \<le> j \<and> j < i0 \<longrightarrow> \<not> bit occ (nat (s + j * int_of_Direction d)))"
proof -
  let ?bl = "generate_ray s d AND occ"
  let ?o = "int_of_Direction d"
  have inbl: "bit ?bl b"
    using nz b lsb_of_bit[of ?bl] get_msb_index_spec[of ?bl] by (auto simp: get_lsb_index_eq)
  then have "bit (generate_ray s d) b" and occ: "bit occ b" by (simp_all add: bit_and_iff)
  then obtain i0 where i0: "1 \<le> i0" "i0 < ray_bound d s" "int b = s + i0 * ?o"
    using bit_generate_ray[OF s] by blast
  have "\<not> bit occ (nat (s + j * ?o))" if j: "1 \<le> j" "j < i0" for j
  proof
    assume oc: "bit occ (nat (s + j * ?o))"
    have rng: "0 \<le> s + j * ?o" using ray_in_range[OF s j(1)] j(2) i0(2) by simp
    have "bit (generate_ray s d) (nat (s + j * ?o))"
      using bit_generate_ray[OF s, of d "nat (s + j * ?o)"] j i0(2) rng by auto
    then have blj: "bit ?bl (nat (s + j * ?o))" using oc by (simp add: bit_and_iff)
    show False
    proof (cases "0 < ?o")
      case True
      then have "s + j * ?o < s + i0 * ?o" using j(2) by simp
      then have "nat (s + j * ?o) < b" using i0(3) rng by linarith
      moreover have "b = lsb_of ?bl" using b True nz by (simp add: get_lsb_index_eq)
      ultimately show False using blj lsb_of_least by blast
    next
      case False
      then have "?o < 0" using off_nonzero[of d] by linarith
      then have "s + i0 * ?o < s + j * ?o" using j(2) by simp
      then have "b < nat (s + j * ?o)" using i0(3) by linarith
      moreover have "b = get_msb_index ?bl" using b False by simp
      ultimately show False using blj get_msb_index_spec[OF nz] by blast
    qed
  qed
  then show ?thesis using i0 occ by blast
qed

lemma step_bits:
  assumes s: "0 \<le> s" "s < 64"
      and res: "res = (let ray = ray_table d s; attacks = a OR ray; blockers = ray AND occ
                in if blockers \<noteq> 0
                   then let blocker_sq = (if 0 < int_of_Direction d then int (get_lsb_index blockers)
                                          else int (get_msb_index blockers));
                            beyond_blocker = generate_ray blocker_sq d
                        in attacks AND NOT beyond_blocker
                   else attacks)"
  shows "bit res k \<longleftrightarrow> (if on_ray d s k then ray_visible d s occ k else bit a k)"
proof (cases "generate_ray s d AND occ = 0")
  case True
  then have r: "res = a OR generate_ray s d" using res by (simp add: ray_table_def Let_def)
  have noocc: "\<not> bit occ (nat (s + j * int_of_Direction d))" if "1 \<le> j" "j < ray_bound d s" for j
  proof
    assume "bit occ (nat (s + j * int_of_Direction d))"
    moreover have "bit (generate_ray s d) (nat (s + j * int_of_Direction d))"
      using bit_generate_ray[OF s, of d "nat (s + j * int_of_Direction d)"] that
            ray_in_range[OF s that] by auto
    ultimately have "bit (generate_ray s d AND occ) (nat (s + j * int_of_Direction d))"
      by (simp add: bit_and_iff)
    then show False using True by simp
  qed
  have "on_ray d s k \<Longrightarrow> ray_visible d s occ k"
    unfolding on_ray_def ray_visible_def using noocc by (metis less_trans)
  then show ?thesis using r bit_generate_ray[OF s, of d k]
    by (auto simp: bit_or_iff on_ray_def)
next
  case False
  define b where "b = (if 0 < int_of_Direction d then get_lsb_index (generate_ray s d AND occ)
                   else get_msb_index (generate_ray s d AND occ))"
  obtain i0 where i0: "1 \<le> i0" "i0 < ray_bound d s" "int b = s + i0 * int_of_Direction d"
      "bit occ b" "\<forall>j. 1 \<le> j \<and> j < i0 \<longrightarrow> \<not> bit occ (nat (s + j * int_of_Direction d))"
    using nearest_blocker[OF s False b_def] by blast
  have r: "res = (a OR generate_ray s d) AND NOT (generate_ray (int b) d)"
    using res False by (simp add: ray_table_def Let_def b_def)
  have brng: "0 \<le> int b" "int b < 64" using ray_in_range[OF s i0(1,2)] i0(3) by simp_all
  have beyond: "bit (generate_ray (int b) d) k
                \<longleftrightarrow> (\<exists>i. i0 < i \<and> i < ray_bound d s \<and> int k = s + i * int_of_Direction d)"
  proof -
    have "bit (generate_ray (int b) d) k
          \<longleftrightarrow> (\<exists>j. 1 \<le> j \<and> j < ray_bound d s - i0 \<and> int k = s + i0 * int_of_Direction d + j * int_of_Direction d)"
      using bit_generate_ray[OF brng, of d k] ray_bound_shift[OF s i0(1,2)] i0(3) by simp
    also have "\<dots> \<longleftrightarrow> (\<exists>i. i0 < i \<and> i < ray_bound d s \<and> int k = s + i * int_of_Direction d)"
    proof
      assume "\<exists>j. 1 \<le> j \<and> j < ray_bound d s - i0 \<and> int k = s + i0 * int_of_Direction d + j * int_of_Direction d"
      then obtain j where "1 \<le> j" "j < ray_bound d s - i0" "int k = s + i0 * int_of_Direction d + j * int_of_Direction d"
        by blast
      then show "\<exists>i. i0 < i \<and> i < ray_bound d s \<and> int k = s + i * int_of_Direction d"
        by (intro exI[of _ "i0 + j"]) (simp add: algebra_simps)
    next
      assume "\<exists>i. i0 < i \<and> i < ray_bound d s \<and> int k = s + i * int_of_Direction d"
      then obtain i where "i0 < i" "i < ray_bound d s" "int k = s + i * int_of_Direction d" by blast
      then show "\<exists>j. 1 \<le> j \<and> j < ray_bound d s - i0 \<and> int k = s + i0 * int_of_Direction d + j * int_of_Direction d"
        by (intro exI[of _ "i - i0"]) (simp add: algebra_simps)
    qed
    finally show ?thesis .
  qed
  have uniq: "i = i'" if "s + i * int_of_Direction d = s + i' * int_of_Direction d" for i i'
    using that off_nonzero[of d] by simp
  have vis: "ray_visible d s occ k \<longleftrightarrow> (\<exists>i. 1 \<le> i \<and> i \<le> i0 \<and> int k = s + i * int_of_Direction d)"
  proof
    assume "ray_visible d s occ k"
    then obtain i where i: "1 \<le> i" "i < ray_bound d s" "int k = s + i * int_of_Direction d"
        "\<forall>j. 1 \<le> j \<and> j < i \<longrightarrow> \<not> bit occ (nat (s + j * int_of_Direction d))"
      unfolding ray_visible_def by blast
    have "\<not> i0 < i"
    proof
      assume "i0 < i"
      then have "\<not> bit occ (nat (s + i0 * int_of_Direction d))" using i(4) i0(1) by blast
      then show False using i0(3,4) by (metis nat_int)
    qed
    then show "\<exists>i. 1 \<le> i \<and> i \<le> i0 \<and> int k = s + i * int_of_Direction d"
      using i by (intro exI[of _ i]) simp
  next
    assume "\<exists>i. 1 \<le> i \<and> i \<le> i0 \<and> int k = s + i * int_of_Direction d"
    then obtain i where i: "1 \<le> i" "i \<le> i0" "int k = s + i * int_of_Direction d" by blast
    then show "ray_visible d s occ k" unfolding ray_visible_def
      using i0(2,5) by (intro exI[of _ i]) auto
  qed
  show ?thesis
  proof (cases "on_ray d s k")
    case True
    then obtain i where i: "1 \<le> i" "i < ray_bound d s" "int k = s + i * int_of_Direction d"
      unfolding on_ray_def by blast
    have "bit (generate_ray s d) k" using bit_generate_ray[OF s, of d k] i by blast
    moreover have "bit (generate_ray (int b) d) k \<longleftrightarrow> i0 < i"
      using beyond i uniq by (metis)
    moreover have "ray_visible d s occ k \<longleftrightarrow> i \<le> i0"
      using vis i uniq by (metis)
    ultimately show ?thesis using True r
      by (auto simp: bit_and_iff bit_or_iff bit_not_iff dest: bit_imp_le_length)
  next
    case False
    then have "\<not> bit (generate_ray s d) k" using bit_generate_ray[OF s, of d k]
      by (simp add: on_ray_def)
    moreover have "\<not> bit (generate_ray (int b) d) k" using beyond False i0(1)
      unfolding on_ray_def by (metis less_le_trans not_less order_less_imp_le)
    ultimately show ?thesis using False r
      by (auto simp: bit_and_iff bit_or_iff bit_not_iff dest: bit_imp_le_length)
  qed
qed


lemma ray_disjoint:
  assumes s: "0 \<le> s" "s < 64" and a: "on_ray d s k" and b: "on_ray d' s k"
  shows "d = d'"
proof -
  obtain r f where rf: "s = 8 * r + f" "0 \<le> f" "f < 8" "0 \<le> r" "r < 8"
                       "file_of s = f" "rank_of s = r"
    using square_decomp[OF s] by blast
  obtain i where i: "1 \<le> i" "i < ray_bound d s" "int k = s + i * int_of_Direction d"
    using a unfolding on_ray_def by blast
  obtain i' where i': "1 \<le> i'" "i' < ray_bound d' s" "int k = s + i' * int_of_Direction d'"
    using b unfolding on_ray_def by blast
  have e: "i * int_of_Direction d = i' * int_of_Direction d'" using i(3) i'(3) by simp
  show ?thesis using i(1,2) i'(1,2) e rf(2-7)
    by (cases d; cases d'; simp; presburger)
qed

lemma ray_visible_on_ray: "ray_visible d s occ k \<Longrightarrow> on_ray d s k"
  unfolding ray_visible_def on_ray_def by blast


lemma bishop_step_bits:
  assumes s: "0 \<le> s" "s < 64" and d: "d \<in> set bishop_directions"
  shows "bit (bishop_step s occ a d) k \<longleftrightarrow> (if on_ray d s k then ray_visible d s occ k else bit a k)"
proof -
  have c: "(d = NorthEast \<or> d = NorthWest) \<longleftrightarrow> 0 < int_of_Direction d"
    using d by (auto simp: bishop_directions_def)
  show ?thesis
    by (rule step_bits[OF s]) (simp add: bishop_step_def c Let_def)
qed

lemma rook_step_bits:
  assumes s: "0 \<le> s" "s < 64" and d: "d \<in> set rook_directions"
  shows "bit (rook_step s occ a d) k \<longleftrightarrow> (if on_ray d s k then ray_visible d s occ k else bit a k)"
proof -
  have c: "(d = North \<or> d = East) \<longleftrightarrow> 0 < int_of_Direction d"
    using d by (auto simp: rook_directions_def)
  show ?thesis
    by (rule step_bits[OF s]) (simp add: rook_step_def c Let_def)
qed

lemma bit_bishop_attacks:
  assumes s: "0 \<le> s" "s < 64"
  shows "bit (bishop_attacks s occ) k \<longleftrightarrow> (\<exists>d\<in>set bishop_directions. ray_visible d s occ k)"
proof -
  have dis: "\<And>d d'. on_ray d s k \<Longrightarrow> on_ray d' s k \<Longrightarrow> d = d'"
    using ray_disjoint[OF s] by blast
  have vo: "\<And>d. ray_visible d s occ k \<Longrightarrow> on_ray d s k" by (rule ray_visible_on_ray)
  have st: "\<And>a d. d \<in> set bishop_directions \<Longrightarrow>
      bit (bishop_step s occ a d) k \<longleftrightarrow> (if on_ray d s k then ray_visible d s occ k else bit a k)"
    by (rule bishop_step_bits[OF s])
  show ?thesis
    unfolding bishop_attacks_def
    using dis[of NorthEast NorthWest] dis[of NorthEast SouthEast] dis[of NorthEast SouthWest]
          dis[of NorthWest SouthEast] dis[of NorthWest SouthWest] dis[of SouthEast SouthWest]
          vo[of NorthEast] vo[of NorthWest] vo[of SouthEast] vo[of SouthWest]
    by (auto simp: bishop_directions_def st)
qed

lemma bit_rook_attacks:
  assumes s: "0 \<le> s" "s < 64"
  shows "bit (rook_attacks s occ) k \<longleftrightarrow> (\<exists>d\<in>set rook_directions. ray_visible d s occ k)"
proof -
  have dis: "\<And>d d'. on_ray d s k \<Longrightarrow> on_ray d' s k \<Longrightarrow> d = d'"
    using ray_disjoint[OF s] by blast
  have vo: "\<And>d. ray_visible d s occ k \<Longrightarrow> on_ray d s k" by (rule ray_visible_on_ray)
  have st: "\<And>a d. d \<in> set rook_directions \<Longrightarrow>
      bit (rook_step s occ a d) k \<longleftrightarrow> (if on_ray d s k then ray_visible d s occ k else bit a k)"
    by (rule rook_step_bits[OF s])
  show ?thesis
    unfolding rook_attacks_def
    using dis[of North East] dis[of North South] dis[of North West]
          dis[of East South] dis[of East West] dis[of South West]
          vo[of North] vo[of East] vo[of South] vo[of West]
    by (auto simp: rook_directions_def st)
qed

subsection \<open>The attack sets in board coordinates\<close>

text \<open>The yardstick of the claim, written without the ray tables, the loop bounds or the
  direction arrays of the code. A square is \<open>8 * rank + file\<close> with file and rank in 0..7.
  \<open>slides_to (df, dr) s occ t\<close>: the square \<open>t\<close> is reached from \<open>s\<close> by \<open>n\<close> steps
  (between 1 and 7) that each add \<open>df\<close> to the file and \<open>dr\<close> to the rank, and none of the
  squares passed on the way, the steps 1 to \<open>n - 1\<close>, is occupied. The square \<open>t\<close> itself
  may be occupied: the first blocker is reached, the squares behind it are not.\<close>

definition slides_to :: "int \<times> int \<Rightarrow> Square \<Rightarrow> Bitboard \<Rightarrow> Square \<Rightarrow> bool" where
  "slides_to step s occ t \<longleftrightarrow>
     (\<exists>n\<in>set [1 .. 7]. t mod 8 = s mod 8 + n * fst step \<and> t div 8 = s div 8 + n * snd step \<and>
        (\<forall>j\<in>set [1 .. n - 1]. \<not> bit occ (nat (s + j * (fst step + 8 * snd step)))))"

text \<open>The file and rank step of each \<open>Direction\<close> enumerator (types.h: North = 8,
  East = 1, South = -8, West = -1, NorthEast = 9, SouthEast = -7, SouthWest = -9,
  NorthWest = 7).\<close>

fun direction_step :: "Direction \<Rightarrow> int \<times> int" where
  "direction_step North = (0, 1)"
| "direction_step East = (1, 0)"
| "direction_step South = (0, - 1)"
| "direction_step West = (- 1, 0)"
| "direction_step NorthEast = (1, 1)"
| "direction_step SouthEast = (1, - 1)"
| "direction_step SouthWest = (- 1, - 1)"
| "direction_step NorthWest = (- 1, 1)"

lemma direction_step_offset:
  "fst (direction_step d) + 8 * snd (direction_step d) = int_of_Direction d"
  by (cases d) simp_all

lemma decomp_unique:
  "0 \<le> (f::int) \<Longrightarrow> f < 8 \<Longrightarrow> 0 \<le> f' \<Longrightarrow> f' < 8 \<Longrightarrow> 8 * a + f' = 8 * b + f \<Longrightarrow> f' = f \<and> a = b"
  by presburger

lemma ray_index_iff:
  assumes s: "0 \<le> s" "s < 64" and t: "0 \<le> t" "t < 64" and i: "1 \<le> i"
  shows "i < ray_bound d s \<and> t = s + i * int_of_Direction d
         \<longleftrightarrow> i \<le> 7 \<and> t mod 8 = s mod 8 + i * fst (direction_step d) \<and>
             t div 8 = s div 8 + i * snd (direction_step d)"
proof -
  obtain r f where rf: "s = 8 * r + f" "0 \<le> f" "f < 8" "0 \<le> r" "r < 8"
                       "file_of s = f" "rank_of s = r"
    using square_decomp[OF s] by blast
  obtain r' f' where rf': "t = 8 * r' + f'" "0 \<le> f'" "f' < 8" "0 \<le> r'" "r' < 8"
                       "file_of t = f'" "rank_of t = r'"
    using square_decomp[OF t] by blast
  have m: "s mod 8 = f" "s div 8 = r" "t mod 8 = f'" "t div 8 = r'"
    using rf rf' s t by (simp_all add: file_of_nonneg rank_of_nonneg)
  show ?thesis
  proof (cases d)
    case North
    show ?thesis unfolding m rf(1) rf'(1) North
      using i rf(2-5) rf'(2-5) decomp_unique[of f f' r' "r + i"] by (auto simp: file_rank_of_make)
  next
    case East
    show ?thesis unfolding m rf(1) rf'(1) East
      using i rf(2-5) rf'(2-5) decomp_unique[of "f + i" f' r' r] by (auto simp: file_rank_of_make)
  next
    case South
    show ?thesis unfolding m rf(1) rf'(1) South
      using i rf(2-5) rf'(2-5) decomp_unique[of f f' r' "r - i"] by (auto simp: file_rank_of_make)
  next
    case West
    show ?thesis unfolding m rf(1) rf'(1) West
      using i rf(2-5) rf'(2-5) decomp_unique[of "f - i" f' r' r] by (auto simp: file_rank_of_make)
  next
    case NorthEast
    show ?thesis unfolding m rf(1) rf'(1) NorthEast
      using i rf(2-5) rf'(2-5) decomp_unique[of "f + i" f' r' "r + i"] by (auto simp: file_rank_of_make)
  next
    case SouthEast
    show ?thesis unfolding m rf(1) rf'(1) SouthEast
      using i rf(2-5) rf'(2-5) decomp_unique[of "f + i" f' r' "r - i"] by (auto simp: file_rank_of_make)
  next
    case SouthWest
    show ?thesis unfolding m rf(1) rf'(1) SouthWest
      using i rf(2-5) rf'(2-5) decomp_unique[of "f - i" f' r' "r - i"] by (auto simp: file_rank_of_make)
  next
    case NorthWest
    show ?thesis unfolding m rf(1) rf'(1) NorthWest
      using i rf(2-5) rf'(2-5) decomp_unique[of "f - i" f' r' "r + i"] by (auto simp: file_rank_of_make)
  qed
qed

lemma ray_visible_slides:
  assumes s: "0 \<le> s" "s < 64" and t: "0 \<le> t" "t < 64"
  shows "ray_visible d s occ (nat t) \<longleftrightarrow> slides_to (direction_step d) s occ t"
proof -
  have "ray_visible d s occ (nat t) \<longleftrightarrow>
        (\<exists>i. 1 \<le> i \<and> (i < ray_bound d s \<and> t = s + i * int_of_Direction d) \<and>
             (\<forall>j. 1 \<le> j \<and> j < i \<longrightarrow> \<not> bit occ (nat (s + j * int_of_Direction d))))"
    unfolding ray_visible_def using t by (auto simp: file_rank_of_make)
  also have "\<dots> \<longleftrightarrow>
        (\<exists>i. 1 \<le> i \<and> (i \<le> 7 \<and> t mod 8 = s mod 8 + i * fst (direction_step d) \<and>
             t div 8 = s div 8 + i * snd (direction_step d)) \<and>
             (\<forall>j. 1 \<le> j \<and> j < i \<longrightarrow> \<not> bit occ (nat (s + j * int_of_Direction d))))"
    using ray_index_iff[OF s t] by blast
  also have "\<dots> \<longleftrightarrow> slides_to (direction_step d) s occ t"
    unfolding slides_to_def direction_step_offset by (auto simp: file_rank_of_make)
  finally show ?thesis .
qed

lemma bishop_rook_attacks_d4_blocker_f6:
  "bishop_attacks 27 35184372088832 = 318944272720449 \<and>
   rook_attacks 27 35184372088832 = 578721386714368008"
  by code_simp

lemma slides_to_d4_f6: "slides_to (1, 1) 27 35184372088832 45"
  unfolding slides_to_def by (rule bexI[of _ 2]) (simp_all add: upto.simps)

text \<open>Claim C2. For every origin square \<open>s\<close> in 0..63, every occupancy \<open>occ\<close> and every
  square \<open>t\<close> in 0..63: \<open>t\<close> is in \<open>bishop_attacks(s, occ)\<close> exactly when it lies on one of
  the four diagonal rays from \<open>s\<close> (north-east, north-west, south-east, south-west) with no
  occupied square strictly between \<open>s\<close> and \<open>t\<close>, and \<open>t\<close> is in \<open>rook_attacks(s, occ)\<close>
  exactly when it lies on one of the four straight rays (north, east, south, west) with no
  occupied square strictly between. So on each of the four rays the result holds the
  squares up to and including the first occupied one, a ray without blocker is included
  whole, and nothing else is in the result. The four directions and the squares of each
  ray are fixed here by file and rank arithmetic, not by the tables of the code.\<close>

theorem slider_attacks_stop_at_first_blocker:
  assumes "0 \<le> s" "s < 64" "0 \<le> t" "t < 64"
  shows "(bit (bishop_attacks s occ) (nat t) \<longleftrightarrow>
            (\<exists>step\<in>{(1, 1), (- 1, 1), (1, - 1), (- 1, - 1)}. slides_to step s occ t)) \<and>
         (bit (rook_attacks s occ) (nat t) \<longleftrightarrow>
            (\<exists>step\<in>{(0, 1), (1, 0), (0, - 1), (- 1, 0)}. slides_to step s occ t))"
  using ray_visible_slides[OF assms, of _ occ]
  by (simp add: bit_bishop_attacks[OF assms(1,2)] bit_rook_attacks[OF assms(1,2)]
        bishop_directions_def rook_directions_def)

text \<open>A bishop on d4 (27) with the only other piece on f6 (45): f6 is attacked along the
  north-east diagonal past the empty e5, g7 (54) behind the blocker is not, and the rook
  from d4 does not attack f6.\<close>

theorem slider_attacks_stop_at_first_blocker_witness:
  "(0::int) \<le> 27 \<and> (27::int) < 64 \<and> (0::int) \<le> 45 \<and> (45::int) < 64 \<and>
   bit (bishop_attacks 27 35184372088832) (nat 45) \<and>
   (\<exists>step\<in>{(1, 1), (- 1, 1), (1, - 1), (- 1, - 1)}. slides_to step 27 35184372088832 45) \<and>
   slides_to (1, 1) 27 35184372088832 45 \<and>
   \<not> bit (rook_attacks 27 35184372088832) (nat 45) \<and>
   \<not> (\<exists>step\<in>{(0, 1), (1, 0), (0, - 1), (- 1, 0)}. slides_to step 27 35184372088832 45) \<and>
   \<not> bit (bishop_attacks 27 35184372088832) (nat 54) \<and>
   \<not> (\<exists>step\<in>{(1, 1), (- 1, 1), (1, - 1), (- 1, - 1)}. slides_to step 27 35184372088832 54)"
  using slider_attacks_stop_at_first_blocker[of 27 45 35184372088832]
        slider_attacks_stop_at_first_blocker[of 27 54 35184372088832]
        bishop_rook_attacks_d4_blocker_f6 slides_to_d4_f6
  by simp
section \<open>Zobrist keys (zobrist.cpp, \<open>ZobristHash::initialize\<close>)\<close>

text \<open>The keys are the first 793 outputs of \<open>std::mt19937_64\<close> seeded with
  \<open>0x1234567890ABCDEF\<close>. The engine is the one the C++ standard fixes:
  \<open>mersenne_twister_engine<uint_fast64_t, 64, 312, 156, 31, 0xb5026f5aa96619e9, 29,
  0x5555555555555555, 17, 0x71d67fffeda60000, 37, 0xfff7eee000000000, 43,
  6364136223846793005>\<close>.\<close>

fun mt_seed_loop :: "nat \<Rightarrow> nat \<Rightarrow> 64 word \<Rightarrow> 64 word list" where
  "mt_seed_loop 0 i prev = []"
| "mt_seed_loop (Suc n) i prev =
     (let x = 6364136223846793005 * (prev XOR drop_bit 62 prev) + of_nat i
      in x # mt_seed_loop n (Suc i) x)"

definition mt_seed :: "64 word \<Rightarrow> 64 word list" where
  "mt_seed s = s # mt_seed_loop 311 1 s"

definition mt_mix :: "64 word \<Rightarrow> 64 word \<Rightarrow> 64 word \<Rightarrow> 64 word" where
  "mt_mix cur nxt far =
     (let x = (cur AND 0xFFFFFFFF80000000) OR (nxt AND 0x7FFFFFFF);
          xa = drop_bit 1 x
      in far XOR (if bit x 0 then xa XOR 0xb5026f5aa96619e9 else xa))"

fun mt_map3 :: "64 word list \<Rightarrow> 64 word list \<Rightarrow> 64 word list \<Rightarrow> 64 word list" where
  "mt_map3 (c # cs) (n # ns) (f # fs) = mt_mix c n f # mt_map3 cs ns fs"
| "mt_map3 _ _ _ = []"

text \<open>One regeneration of the 312-word state, in place and in index order: word \<open>i\<close>
  is mixed from words \<open>i\<close>, \<open>i + 1\<close> and \<open>i + 156\<close> (indices modulo 312), so the
  second half reads the already regenerated first half.\<close>

definition mt_twist :: "64 word list \<Rightarrow> 64 word list" where
  "mt_twist mt =
     (let h1 = mt_map3 (take 156 mt) (take 156 (tl mt)) (drop 156 mt);
          h2 = mt_map3 (drop 156 mt) (drop 157 mt @ [hd h1]) h1
      in h1 @ h2)"

definition mt_temper :: "64 word \<Rightarrow> 64 word" where
  "mt_temper y0 =
     (let y1 = y0 XOR (drop_bit 29 y0 AND 0x5555555555555555);
          y2 = y1 XOR (push_bit 17 y1 AND 0x71d67fffeda60000);
          y3 = y2 XOR (push_bit 37 y2 AND 0xfff7eee000000000)
      in y3 XOR drop_bit 43 y3)"

definition zobrist_outputs :: "64 word list" where
  "zobrist_outputs =
     (let s1 = mt_twist (mt_seed 0x1234567890ABCDEF);
          s2 = mt_twist s1;
          s3 = mt_twist s2
      in take 793 (map mt_temper (s1 @ s2 @ s3)))"

text \<open>\<open>piece_keys_[64][12]\<close>, \<open>castling_keys_[16]\<close>, \<open>en_passant_keys_[8]\<close> and
  \<open>side_to_move_key_\<close>, in the order \<open>initialize\<close> draws them.\<close>

definition piece_keys :: "int \<Rightarrow> int \<Rightarrow> 64 word" where
  "piece_keys square piece = zobrist_outputs ! nat (square * 12 + piece)"

definition castling_keys :: "nat \<Rightarrow> 64 word" where
  "castling_keys rights = zobrist_outputs ! (768 + rights)"

definition en_passant_keys :: "int \<Rightarrow> 64 word" where
  "en_passant_keys file = zobrist_outputs ! nat (784 + file)"

definition side_to_move_key :: "64 word" where
  "side_to_move_key = zobrist_outputs ! 792"
section \<open>Population count, bit iteration and the attack tables (bitboard.cpp)\<close>

text \<open>\<open>count_bits\<close> adds the low bit to a \<open>uint8_t\<close> counter and shifts right until
  the copy is zero.\<close>

function count_bits_loop :: "64 word \<Rightarrow> nat \<Rightarrow> nat" where
  "count_bits_loop bb_copy count =
     (if bb_copy \<noteq> 0
      then count_bits_loop (drop_bit 1 bb_copy) ((count + unat (bb_copy AND 1)) mod 256)
      else count)"
  by pat_completeness auto
termination
proof (relation "measure (\<lambda>(b, c). unat b)")
  show "wf (measure (\<lambda>(b, c). unat b))" by simp
next
  fix bb_copy :: "64 word" and count :: nat
  assume "bb_copy \<noteq> 0"
  then have "0 < unat bb_copy" by (simp add: unat_gt_0)
  then have "unat bb_copy div 2 < unat bb_copy" by simp
  then show "((drop_bit 1 bb_copy, (count + unat (bb_copy AND 1)) mod 256), (bb_copy, count))
             \<in> measure (\<lambda>(b, c). unat b)"
    by (simp add: unat_drop_bit_eq drop_bit_eq_div unat_div)
qed
declare count_bits_loop.simps [simp del]

definition count_bits :: "Bitboard \<Rightarrow> nat" where
  "count_bits bitboard = count_bits_loop bitboard 0"

lemma even_unat_word: "even (unat (w::64 word)) \<longleftrightarrow> even w"
  by (metis even_of_nat mult.right_neutral unsigned_1 word_arith_nat_mult)

lemma count_bits_loop_bounds:
  "unat bb < 2 ^ n \<Longrightarrow> c + n \<le> 255 \<Longrightarrow>
   c \<le> count_bits_loop bb c \<and> count_bits_loop bb c \<le> c + n \<and>
   (bb \<noteq> 0 \<longrightarrow> c < count_bits_loop bb c)"
proof (induction n arbitrary: bb c)
  case 0
  then have "bb = 0" by (simp add: unat_eq_0)
  then show ?case by (simp add: count_bits_loop.simps)
next
  case (Suc n)
  show ?case
  proof (cases "bb = 0")
    case True
    then show ?thesis by (simp add: count_bits_loop.simps)
  next
    case False
    let ?b' = "drop_bit 1 bb"
    let ?c' = "(c + unat (bb AND 1)) mod 256"
    have u: "unat ?b' = unat bb div 2" by (simp add: unat_drop_bit_eq drop_bit_eq_div unat_div)
    have lt: "unat ?b' < 2 ^ n" using Suc.prems(1) u by simp
    have low: "unat (bb AND 1) = (if odd (unat bb) then 1 else 0)"
      by (simp add: and_one_eq unat_mod mod2_eq_if even_unat_word)
    have c': "?c' = c + unat (bb AND 1)" using Suc.prems(2) low by simp
    have le: "?c' + n \<le> 255" using Suc.prems(2) low c' by simp
    have step: "count_bits_loop bb c = count_bits_loop ?b' ?c'"
      using False by (subst count_bits_loop.simps) simp
    have nz': "even (unat bb) \<Longrightarrow> ?b' \<noteq> 0"
    proof
      assume e: "even (unat bb)" and z: "?b' = 0"
      then have "unat bb div 2 = 0" using u by simp
      then have "unat bb = 0" using e by (auto elim: evenE)
      then show False using False by (simp add: unat_eq_0)
    qed
    show ?thesis using Suc.IH[OF lt le] step c' low nz' by (auto split: if_splits)
  qed
qed

lemma count_bits_pos: "0 < count_bits bb \<longleftrightarrow> bb \<noteq> 0"
proof -
  have "unat bb < 2 ^ 64" using unsigned_less[of bb] by simp
  then show ?thesis
    using count_bits_loop_bounds[of bb 64 0] by (auto simp: count_bits_def count_bits_loop.simps)
qed

text \<open>The generators run \<open>while (bb.count_bits() > 0) { sq = bb.pop_lsb(); ... }\<close> over a
  local copy of a bitboard. \<open>serialize\<close> is that loop with the body left open: the squares
  in the order the loop visits them.\<close>

lemma pop_lsb_decreases: "b \<noteq> 0 \<Longrightarrow> unat (snd (pop_lsb b)) < unat b"
proof -
  assume nz: "b \<noteq> 0"
  let ?m = "push_bit (lsb_of b) 1 :: 64 word"
  have sub: "b AND NOT ?m \<le> b" by (simp add: word_and_le2)
  have ne: "b AND NOT ?m \<noteq> b"
  proof
    assume "b AND NOT ?m = b"
    then have "bit (b AND NOT ?m) (lsb_of b) = bit b (lsb_of b)" by simp
    then show False using lsb_of_bit[OF nz] bit_clear_lsb[of b "lsb_of b" "lsb_of b"] by simp
  qed
  have "b AND NOT ?m < b" using sub ne by simp
  then show ?thesis using nz by (simp add: pop_lsb_eq word_less_nat_alt del: push_bit_of_1)
qed

function serialize :: "Bitboard \<Rightarrow> nat list" where
  "serialize bb =
     (if count_bits bb > 0 then fst (pop_lsb bb) # serialize (snd (pop_lsb bb)) else [])"
  by pat_completeness auto
termination
  by (relation "measure unat") (auto simp: pop_lsb_decreases count_bits_pos)
declare serialize.simps [simp del]

lemma serialize_nonzero:
  "bb \<noteq> 0 \<Longrightarrow> serialize bb = lsb_of bb # serialize (bb AND NOT (push_bit (lsb_of bb) 1))"
  by (subst serialize.simps) (simp add: count_bits_pos pop_lsb_eq del: push_bit_of_1)

lemma serialize_zero: "serialize 0 = []"
  by (subst serialize.simps) (simp add: count_bits_pos)

lemma set_serialize: "set (serialize bb) = {i. bit bb i}"
proof (induction bb rule: serialize.induct)
  case (1 bb)
  show ?case
  proof (cases "bb = 0")
    case True
    then show ?thesis by (simp add: serialize_zero)
  next
    case False
    have ih: "set (serialize (snd (pop_lsb bb))) = {i. bit (snd (pop_lsb bb)) i}"
      using "1.IH" False by (simp add: count_bits_pos)
    have "set (serialize bb) = insert (lsb_of bb) {i. bit bb i \<and> i \<noteq> lsb_of bb}"
      using ih False bit_clear_lsb[of bb "lsb_of bb"]
      by (simp add: serialize_nonzero pop_lsb_eq del: push_bit_of_1)
    then show ?thesis using lsb_of_bit[OF False] by auto
  qed
qed

lemma serialize_lt_64: "i \<in> set (serialize bb) \<Longrightarrow> i < 64"
  using bit_imp_le_length[of bb i] by (simp add: set_serialize)

text \<open>A quicker way to the least set bit, for evaluating the loops on concrete
  bitboards.\<close>

lemma lsb_of_shift:
  fixes w :: "64 word"
  assumes "w \<noteq> 0" "take_bit k w = 0"
  shows "lsb_of w = k + lsb_of (drop_bit k w)"
proof -
  let ?v = "drop_bit k w"
  have low: "\<not> bit w j" if "j < k" for j
  proof
    assume "bit w j"
    then have "bit (take_bit k w) j" using that by (simp add: bit_take_bit_iff)
    then show False using assms(2) by simp
  qed
  have vnz: "?v \<noteq> 0"
  proof
    assume "?v = 0"
    then have "\<not> bit (drop_bit k w) (lsb_of w - k)" by simp
    then have "\<not> bit w (lsb_of w)"
      using low[of "lsb_of w"] by (cases "lsb_of w < k") (auto simp: bit_drop_bit_eq)
    then show False using lsb_of_bit[OF assms(1)] by simp
  qed
  have b: "bit w (k + lsb_of ?v)" using lsb_of_bit[OF vnz] by (simp add: bit_drop_bit_eq)
  have "k + lsb_of ?v \<le> j" if "bit w j" for j
  proof -
    have kj: "k \<le> j" using low[of j] that by (cases "j < k") auto
    then have "bit ?v (j - k)" using that by (simp add: bit_drop_bit_eq)
    then have "lsb_of ?v \<le> j - k" unfolding lsb_of_def by (rule Least_le)
    then show ?thesis using kj by simp
  qed
  then show ?thesis unfolding lsb_of_def[of w] using b by (intro Least_equality) auto
qed

lemma lsb_of_odd: "bit (w :: 64 word) 0 \<Longrightarrow> lsb_of w = 0"
  unfolding lsb_of_def by (rule Least_equality) auto

lemma lsb_of_fast:
  fixes w :: "64 word"
  assumes "w \<noteq> 0"
  shows "lsb_of w =
     (if take_bit 32 w = 0 then 32 + lsb_of (drop_bit 32 w)
      else if take_bit 16 w = 0 then 16 + lsb_of (drop_bit 16 w)
      else if take_bit 8 w = 0 then 8 + lsb_of (drop_bit 8 w)
      else if take_bit 4 w = 0 then 4 + lsb_of (drop_bit 4 w)
      else if take_bit 2 w = 0 then 2 + lsb_of (drop_bit 2 w)
      else if take_bit 1 w = 0 then 1 + lsb_of (drop_bit 1 w)
      else 0)"
proof -
  note s = lsb_of_shift[OF assms]
  have o: "take_bit 1 w \<noteq> 0 \<Longrightarrow> lsb_of w = 0"
  proof -
    assume "take_bit 1 w \<noteq> 0"
    then have "odd w" by (simp add: take_bit_eq_mod even_iff_mod_2_eq_zero)
    then show ?thesis by (intro lsb_of_odd) (simp add: bit_0)
  qed
  show ?thesis using s[of 32] s[of 16] s[of 8] s[of 4] s[of 2] s[of 1] o by presburger
qed

text \<open>The knight, king and pawn tables as \<open>init_knight_attacks\<close>, \<open>init_king_attacks\<close>
  and \<open>init_pawn_attacks\<close> fill them: one guarded bit per offset.\<close>

definition knight_attacks_table :: "int \<Rightarrow> Bitboard" where
  "knight_attacks_table sq =
     (let f = file_of sq; r = rank_of sq;
          bb0 = (0 :: 64 word);
          bb1 = (if r + 2 < 8 \<and> f + 1 < 8 then bb0 OR push_bit (nat (sq + 17)) 1 else bb0);
          bb2 = (if r + 1 < 8 \<and> f + 2 < 8 then bb1 OR push_bit (nat (sq + 10)) 1 else bb1);
          bb3 = (if r - 1 \<ge> 0 \<and> f + 2 < 8 then bb2 OR push_bit (nat (sq - 6)) 1 else bb2);
          bb4 = (if r - 2 \<ge> 0 \<and> f + 1 < 8 then bb3 OR push_bit (nat (sq - 15)) 1 else bb3);
          bb5 = (if r - 2 \<ge> 0 \<and> f - 1 \<ge> 0 then bb4 OR push_bit (nat (sq - 17)) 1 else bb4);
          bb6 = (if r - 1 \<ge> 0 \<and> f - 2 \<ge> 0 then bb5 OR push_bit (nat (sq - 10)) 1 else bb5);
          bb7 = (if r + 1 < 8 \<and> f - 2 \<ge> 0 then bb6 OR push_bit (nat (sq + 6)) 1 else bb6);
          bb8 = (if r + 2 < 8 \<and> f - 1 \<ge> 0 then bb7 OR push_bit (nat (sq + 15)) 1 else bb7)
      in bb8)"

definition king_attacks_table :: "int \<Rightarrow> Bitboard" where
  "king_attacks_table sq =
     (let f = file_of sq; r = rank_of sq;
          bb0 = (0 :: 64 word);
          bb1 = (if r + 1 < 8 then bb0 OR push_bit (nat (sq + 8)) 1 else bb0);
          bb2 = (if r + 1 < 8 \<and> f + 1 < 8 then bb1 OR push_bit (nat (sq + 9)) 1 else bb1);
          bb3 = (if f + 1 < 8 then bb2 OR push_bit (nat (sq + 1)) 1 else bb2);
          bb4 = (if r - 1 \<ge> 0 \<and> f + 1 < 8 then bb3 OR push_bit (nat (sq - 7)) 1 else bb3);
          bb5 = (if r - 1 \<ge> 0 then bb4 OR push_bit (nat (sq - 8)) 1 else bb4);
          bb6 = (if r - 1 \<ge> 0 \<and> f - 1 \<ge> 0 then bb5 OR push_bit (nat (sq - 9)) 1 else bb5);
          bb7 = (if f - 1 \<ge> 0 then bb6 OR push_bit (nat (sq - 1)) 1 else bb6);
          bb8 = (if r + 1 < 8 \<and> f - 1 \<ge> 0 then bb7 OR push_bit (nat (sq + 7)) 1 else bb7)
      in bb8)"

definition pawn_attacks_table :: "Color \<Rightarrow> int \<Rightarrow> Bitboard" where
  "pawn_attacks_table color sq =
     (let f = file_of sq; r = rank_of sq;
          w1 = (if r + 1 < 8 \<and> f + 1 < 8 then push_bit (nat (sq + 9)) 1 else (0 :: 64 word));
          bb_white = (if r + 1 < 8 \<and> f - 1 \<ge> 0 then w1 OR push_bit (nat (sq + 7)) 1 else w1);
          b1 = (if r - 1 \<ge> 0 \<and> f + 1 < 8 then push_bit (nat (sq - 7)) 1 else (0 :: 64 word));
          bb_black = (if r - 1 \<ge> 0 \<and> f - 1 \<ge> 0 then b1 OR push_bit (nat (sq - 9)) 1 else b1)
      in if color = White then bb_white else bb_black)"

text \<open>The lookups guard \<open>Square::NB\<close> and \<open>Square::None\<close> (and \<open>Color::NB\<close>); any
  other square outside 0..63 would index past the table.\<close>

definition knight_attacks :: "Square \<Rightarrow> Bitboard" where
  "knight_attacks square =
     (if square = Square_NB \<or> square = Square_None then 0 else knight_attacks_table square)"

definition king_attacks :: "Square \<Rightarrow> Bitboard" where
  "king_attacks square =
     (if square = Square_NB \<or> square = Square_None then 0 else king_attacks_table square)"

definition pawn_attacks :: "Square \<Rightarrow> Color \<Rightarrow> Bitboard" where
  "pawn_attacks square color =
     (if square = Square_NB \<or> square = Square_None \<or> color = Color_NB then 0
      else pawn_attacks_table color square)"
section \<open>Position (position.h, position.cpp)\<close>

text \<open>The members of \<open>Position\<close>, without their trailing underscore. The arrays
  \<open>pieces_[2][6]\<close>, \<open>occupied_by_color_[2]\<close> and \<open>board_[64]\<close> are functions on the
  index; the code only reads and writes them at \<open>White\<close>/\<open>Black\<close>, the six piece types
  and the squares 0..63 when the position is well formed (\<open>wf_position\<close> below) and the
  move comes from the generator. An index outside the array is undefined behaviour in
  C++; the theorems below stay inside.

  \<open>halfmove_clock_\<close> and \<open>fullmove_number_\<close> are C++ \<open>int\<close>s, modelled as integers:
  no operation of the model brings them near the 32-bit limits unless the FEN did.\<close>

record Position =
  pieces :: "Color \<Rightarrow> PieceType \<Rightarrow> Bitboard"
  occupied_by_color :: "Color \<Rightarrow> Bitboard"
  occupied :: Bitboard
  board :: "Square \<Rightarrow> Piece"
  side_to_move :: Color
  castling_rights :: "8 word"
  en_passant_square :: Square
  halfmove_clock :: int
  fullmove_number :: int
  move_history :: "Move list"
  hash_key :: "64 word"

definition opposite_color :: "Color \<Rightarrow> Color" where
  "opposite_color c = (if c = White then Black else White)"

definition piece_on :: "Position \<Rightarrow> Square \<Rightarrow> Piece" where
  "piece_on pos square = board pos square"

definition move_count :: "Position \<Rightarrow> nat" where
  "move_count pos = length (move_history pos)"

definition all_piece_types :: "PieceType list" where
  "all_piece_types = [Pawn, Knight, Bishop, Rook, Queen, King]"

definition color_occupancy :: "(Color \<Rightarrow> PieceType \<Rightarrow> Bitboard) \<Rightarrow> Color \<Rightarrow> Bitboard" where
  "color_occupancy pcs c = foldl (\<lambda>acc pt. acc OR pcs c pt) 0 all_piece_types"

definition update_bitboards :: "Position \<Rightarrow> Position" where
  "update_bitboards pos =
     (let w = color_occupancy (pieces pos) White;
          b = color_occupancy (pieces pos) Black
      in pos\<lparr> occupied_by_color := (occupied_by_color pos)(White := w, Black := b),
              occupied := (0 OR w) OR b \<rparr>)"

definition king_square :: "Position \<Rightarrow> Color \<Rightarrow> Square" where
  "king_square pos color = int (get_lsb_index (pieces pos color King))"

subsection \<open>Zobrist hash of a position (zobrist.cpp)\<close>

definition piece_index :: "Piece \<Rightarrow> int" where
  "piece_index piece = int_of_Piece piece"

definition hash_position :: "Position \<Rightarrow> 64 word" where
  "hash_position pos =
     (let h1 = foldl (\<lambda>hash square.
                  let piece = piece_on pos square
                  in if piece \<noteq> Piece_None then hash XOR piece_keys square (piece_index piece)
                     else hash) 0 [0 .. 63];
          h2 = h1 XOR castling_keys (unat (castling_rights pos));
          h3 = (if en_passant_square pos \<noteq> Square_None
                then h2 XOR en_passant_keys (file_of (en_passant_square pos)) else h2);
          h4 = (if side_to_move pos = Black then h3 XOR side_to_move_key else h3)
      in h4)"

definition rook_key_pair :: "Square \<Rightarrow> Square \<Rightarrow> Piece \<Rightarrow> 64 word" where
  "rook_key_pair a b rook = piece_keys a (piece_index rook) XOR piece_keys b (piece_index rook)"

definition update_hash_make_move :: "64 word \<Rightarrow> Position \<Rightarrow> Move \<Rightarrow> 64 word" where
  "update_hash_make_move current_hash pos move =
     (let h0 = current_hash XOR side_to_move_key;
          moving_piece = piece_on pos (from_square move);
          h1 = h0 XOR piece_keys (from_square move) (piece_index moving_piece);
          to = to_square move;
          h2 = (case move_type move of
                  Normal \<Rightarrow> h1 XOR piece_keys to (piece_index moving_piece)
                | Capture \<Rightarrow>
                    (if captured_piece move \<noteq> Piece_None
                     then h1 XOR piece_keys to (piece_index (captured_piece move)) else h1)
                    XOR piece_keys to (piece_index moving_piece)
                | Castle \<Rightarrow>
                    (let k = h1 XOR piece_keys to (piece_index moving_piece)
                     in if to = G1 then k XOR rook_key_pair H1 F1 WhiteRook
                        else if to = C1 then k XOR rook_key_pair A1 D1 WhiteRook
                        else if to = G8 then k XOR rook_key_pair H8 F8 BlackRook
                        else if to = C8 then k XOR rook_key_pair A8 D8 BlackRook
                        else k)
                | EnPassant \<Rightarrow>
                    (let k = h1 XOR piece_keys to (piece_index moving_piece);
                         captured_square = (if side_to_move pos = White then to - 8 else to + 8);
                         captured_pawn = (if side_to_move pos = White then BlackPawn else WhitePawn)
                     in k XOR piece_keys captured_square (piece_index captured_pawn))
                | Promotion \<Rightarrow>
                    (let k = h1 XOR piece_keys to (piece_index (promotion_piece move))
                     in if captured_piece move \<noteq> Piece_None
                        then k XOR piece_keys to (piece_index (captured_piece move)) else k)
                | MoveType_NB \<Rightarrow> h1);
          h3 = h2 XOR castling_keys (unat (castling_rights pos));
          h4 = (if en_passant_square pos \<noteq> Square_None
                then h3 XOR en_passant_keys (file_of (en_passant_square pos)) else h3)
      in h4)"
section \<open>Attack detection and move generation (movegen.cpp)\<close>

definition is_square_attacked :: "Position \<Rightarrow> Square \<Rightarrow> Color \<Rightarrow> bool" where
  "is_square_attacked pos square by_color =
     (let pawn_hit =
           (if by_color = White
            then rank_of square > 0 \<and>
                 ((file_of square > 0 \<and> piece_on pos (square - 9) = WhitePawn) \<or>
                  (file_of square < 7 \<and> piece_on pos (square - 7) = WhitePawn))
            else rank_of square < 7 \<and>
                 ((file_of square > 0 \<and> piece_on pos (square + 7) = BlackPawn) \<or>
                  (file_of square < 7 \<and> piece_on pos (square + 9) = BlackPawn)))
      in if pawn_hit then True
         else if count_bits (knight_attacks square AND pieces pos by_color Knight) > 0 then True
         else if count_bits (king_attacks square AND pieces pos by_color King) > 0 then True
         else if count_bits (bishop_attacks square (occupied pos) AND
                   (pieces pos by_color Bishop OR pieces pos by_color Queen)) > 0 then True
         else if count_bits (rook_attacks square (occupied pos) AND
                   (pieces pos by_color Rook OR pieces pos by_color Queen)) > 0 then True
         else False)"

definition is_in_check :: "Position \<Rightarrow> bool" where
  "is_in_check pos =
     (let king_sq = king_square pos (side_to_move pos);
          enemy_color = opposite_color (side_to_move pos)
      in is_square_attacked pos king_sq enemy_color)"

text \<open>The inner loop shared by the knight, bishop, rook, queen and king generators: one
  move per target square, a capture when the target is occupied.\<close>

definition target_moves :: "Position \<Rightarrow> Square \<Rightarrow> Bitboard \<Rightarrow> Move list" where
  "target_moves pos from attacks =
     map (\<lambda>to. mk_Move from (int to)
                  (if piece_on pos (int to) \<noteq> Piece_None then Capture else Normal) Piece_None)
         (serialize attacks)"

definition generate_knight_moves :: "Position \<Rightarrow> Move list \<Rightarrow> Color \<Rightarrow> Move list" where
  "generate_knight_moves pos moves color =
     (let knights = pieces pos color Knight;
          own_pieces = occupied_by_color pos color
      in moves @ concat (map (\<lambda>from. target_moves pos (int from)
                                 (knight_attacks (int from) AND NOT own_pieces))
                             (serialize knights)))"

definition generate_bishop_moves :: "Position \<Rightarrow> Move list \<Rightarrow> Color \<Rightarrow> Move list" where
  "generate_bishop_moves pos moves color =
     (let bishops = pieces pos color Bishop;
          own_pieces = occupied_by_color pos color
      in moves @ concat (map (\<lambda>from. target_moves pos (int from)
                                 (bishop_attacks (int from) (occupied pos) AND NOT own_pieces))
                             (serialize bishops)))"

definition generate_rook_moves :: "Position \<Rightarrow> Move list \<Rightarrow> Color \<Rightarrow> Move list" where
  "generate_rook_moves pos moves color =
     (let rooks = pieces pos color Rook;
          own_pieces = occupied_by_color pos color
      in moves @ concat (map (\<lambda>from. target_moves pos (int from)
                                 (rook_attacks (int from) (occupied pos) AND NOT own_pieces))
                             (serialize rooks)))"

definition generate_queen_moves :: "Position \<Rightarrow> Move list \<Rightarrow> Color \<Rightarrow> Move list" where
  "generate_queen_moves pos moves color =
     (let queens = pieces pos color Queen;
          own_pieces = occupied_by_color pos color
      in moves @ concat (map (\<lambda>from. target_moves pos (int from)
                                 (queen_attacks (int from) (occupied pos) AND NOT own_pieces))
                             (serialize queens)))"

definition generate_king_moves :: "Position \<Rightarrow> Move list \<Rightarrow> Color \<Rightarrow> Move list" where
  "generate_king_moves pos moves color =
     (let kings = pieces pos color King;
          own_pieces = occupied_by_color pos color
      in if count_bits kings > 0
         then let from = int (fst (pop_lsb kings))
              in moves @ target_moves pos from (king_attacks from AND NOT own_pieces)
         else moves)"

definition has_right :: "8 word \<Rightarrow> nat \<Rightarrow> bool" where
  "has_right rights n \<longleftrightarrow> rights AND push_bit n 1 \<noteq> 0"

definition generate_castling_moves :: "Position \<Rightarrow> Move list \<Rightarrow> Color \<Rightarrow> Move list" where
  "generate_castling_moves pos moves color =
     (if is_in_check pos then moves
      else let king_sq = king_square pos color
       in if (color = White \<and> king_sq \<noteq> E1) \<or> (color = Black \<and> king_sq \<noteq> E8) then moves
          else let rights = castling_rights pos
           in if color = White
              then let m1 = (if has_right rights 0 \<and>
                                \<not> is_bit_set (occupied pos) F1 \<and> \<not> is_bit_set (occupied pos) G1 \<and>
                                \<not> is_square_attacked pos F1 Black \<and> \<not> is_square_attacked pos G1 Black \<and>
                                piece_on pos H1 = WhiteRook
                             then moves @ [mk_Move E1 G1 Castle Piece_None] else moves)
                   in (if has_right rights 1 \<and>
                          \<not> is_bit_set (occupied pos) D1 \<and> \<not> is_bit_set (occupied pos) C1 \<and>
                          \<not> is_bit_set (occupied pos) B1 \<and>
                          \<not> is_square_attacked pos D1 Black \<and> \<not> is_square_attacked pos C1 Black \<and>
                          piece_on pos A1 = WhiteRook
                       then m1 @ [mk_Move E1 C1 Castle Piece_None] else m1)
              else let m1 = (if has_right rights 2 \<and>
                                \<not> is_bit_set (occupied pos) F8 \<and> \<not> is_bit_set (occupied pos) G8 \<and>
                                \<not> is_square_attacked pos F8 White \<and> \<not> is_square_attacked pos G8 White \<and>
                                piece_on pos H8 = BlackRook
                             then moves @ [mk_Move E8 G8 Castle Piece_None] else moves)
                   in (if has_right rights 3 \<and>
                          \<not> is_bit_set (occupied pos) D8 \<and> \<not> is_bit_set (occupied pos) C8 \<and>
                          \<not> is_bit_set (occupied pos) B8 \<and>
                          \<not> is_square_attacked pos D8 White \<and> \<not> is_square_attacked pos C8 White \<and>
                          piece_on pos A8 = BlackRook
                       then m1 @ [mk_Move E8 C8 Castle Piece_None] else m1))"

definition promotion_moves :: "Square \<Rightarrow> Square \<Rightarrow> Color \<Rightarrow> Move list" where
  "promotion_moves from to color =
     [mk_Move from to Promotion (make_piece color Queen),
      mk_Move from to Promotion (make_piece color Rook),
      mk_Move from to Promotion (make_piece color Bishop),
      mk_Move from to Promotion (make_piece color Knight)]"

text \<open>The body of the pawn loop for the pawn on \<open>from\<close>.\<close>

definition pawn_moves_from :: "Position \<Rightarrow> Color \<Rightarrow> Square \<Rightarrow> Move list" where
  "pawn_moves_from pos color from =
     (let enemy_pieces = occupied_by_color pos (if color = White then Black else White);
          push_offset = (if color = White then 8 else - 8);
          start_rank = (if color = White then 1 else 6);
          promo_rank = (if color = White then 7 else 0);
          from_rank = rank_of from;
          to = from + push_offset;
          pushes =
            (if to \<ge> A1 \<and> to \<le> H8 \<and> \<not> is_bit_set (occupied pos) to
             then if rank_of to = promo_rank then promotion_moves from to color
                  else mk_Move from to Normal Piece_None #
                       (if from_rank = start_rank
                        then let double_to = from + 2 * push_offset
                             in if \<not> is_bit_set (occupied pos) double_to
                                then [mk_Move from double_to Normal Piece_None] else []
                        else [])
             else []);
          attacks = pawn_attacks from color AND enemy_pieces;
          captures = concat (map (\<lambda>cap. let cap_sq = int cap
                          in if rank_of cap_sq = promo_rank then promotion_moves from cap_sq color
                             else [mk_Move from cap_sq Capture Piece_None])
                        (serialize attacks));
          ep = (if en_passant_square pos \<noteq> Square_None \<and>
                   is_bit_set (pawn_attacks from color) (en_passant_square pos)
                then [mk_Move from (en_passant_square pos) EnPassant Piece_None] else [])
      in pushes @ captures @ ep)"

definition generate_pawn_moves :: "Position \<Rightarrow> Move list \<Rightarrow> Color \<Rightarrow> Move list" where
  "generate_pawn_moves pos moves color =
     moves @ concat (map (\<lambda>from. pawn_moves_from pos color (int from))
                         (serialize (pieces pos color Pawn)))"

definition generate_all_moves :: "Position \<Rightarrow> Move list \<Rightarrow> Color \<Rightarrow> Move list" where
  "generate_all_moves pos moves color =
     (let m1 = generate_pawn_moves pos moves color;
          m2 = generate_knight_moves pos m1 color;
          m3 = generate_bishop_moves pos m2 color;
          m4 = generate_rook_moves pos m3 color;
          m5 = generate_queen_moves pos m4 color;
          m6 = generate_king_moves pos m5 color
      in generate_castling_moves pos m6 color)"
section \<open>Making and undoing moves (position.cpp)\<close>

definition pcs_set :: "(Color \<Rightarrow> PieceType \<Rightarrow> Bitboard) \<Rightarrow> Color \<Rightarrow> PieceType \<Rightarrow> Square
    \<Rightarrow> (Color \<Rightarrow> PieceType \<Rightarrow> Bitboard)" where
  "pcs_set pcs c t sq = pcs(c := (pcs c)(t := set_bit_bb (pcs c t) sq))"

definition pcs_clear :: "(Color \<Rightarrow> PieceType \<Rightarrow> Bitboard) \<Rightarrow> Color \<Rightarrow> PieceType \<Rightarrow> Square
    \<Rightarrow> (Color \<Rightarrow> PieceType \<Rightarrow> Bitboard)" where
  "pcs_clear pcs c t sq = pcs(c := (pcs c)(t := clear_bit_bb (pcs c t) sq))"

definition clear_right :: "8 word \<Rightarrow> nat \<Rightarrow> 8 word" where
  "clear_right rights n = rights AND NOT (push_bit n 1)"

text \<open>Rook corner and rook target of a castling move, by the king's target square.\<close>

definition castle_rook_from :: "Square \<Rightarrow> Square" where
  "castle_rook_from to = (if to = G1 then H1 else if to = C1 then A1 else if to = G8 then H8 else A8)"

definition castle_rook_to :: "Square \<Rightarrow> Square" where
  "castle_rook_to to = (if to = G1 then F1 else if to = C1 then D1 else if to = G8 then F8 else D8)"

definition castling_after :: "8 word \<Rightarrow> PieceType \<Rightarrow> Color \<Rightarrow> Square \<Rightarrow> Square \<Rightarrow> 8 word" where
  "castling_after rights type color from to =
     (let r1 = (if type = King
                then if color = White then clear_right (clear_right rights 0) 1
                     else clear_right (clear_right rights 2) 3
                else rights);
          r2 = (if from = A1 then clear_right r1 1 else r1);
          r3 = (if from = H1 then clear_right r2 0 else r2);
          r4 = (if from = A8 then clear_right r3 3 else r3);
          r5 = (if from = H8 then clear_right r4 2 else r4);
          r6 = (if to = A1 then clear_right r5 1 else r5);
          r7 = (if to = H1 then clear_right r6 0 else r6);
          r8 = (if to = A8 then clear_right r7 3 else r7);
          r9 = (if to = H8 then clear_right r8 2 else r8)
      in r9)"

definition en_passant_after :: "PieceType \<Rightarrow> Color \<Rightarrow> Square \<Rightarrow> Square \<Rightarrow> Square" where
  "en_passant_after type color from to =
     (if type = Pawn \<and> \<bar>rank_of to - rank_of from\<bar> = 2
      then if color = White then to - 8 else to + 8
      else Square_None)"

definition make_move :: "Position \<Rightarrow> Move \<Rightarrow> Position" where
  "make_move pos move =
     (let from = from_square move; to = to_square move;
          moving_piece = piece_on pos from;
          captured = piece_on pos to;
          mws0 = move\<lparr> previous_castling_rights := castling_rights pos,
                       previous_en_passant_square := en_passant_square pos,
                       previous_halfmove_clock := halfmove_clock pos,
                       captured_piece := captured \<rparr>;
          color = color_of moving_piece;
          type = type_of moving_piece;
          pcs0 = pcs_clear (pieces pos) color type from;
          brd0 = (board pos)(from := Piece_None);
          hm0 = halfmove_clock pos;
          (pcs1, brd1, hm1, mws1) =
            (case move_type move of
               Normal \<Rightarrow>
                 (let pcs = (if captured \<noteq> Piece_None
                             then pcs_clear pcs0 (color_of captured) (type_of captured) to else pcs0);
                      hm = (if captured \<noteq> Piece_None then 0
                            else if type \<noteq> Pawn then hm0 + 1 else 0)
                  in (pcs_set pcs color type to, brd0(to := moving_piece), hm, mws0))
             | Capture \<Rightarrow>
                 (let pcs = (if captured \<noteq> Piece_None
                             then pcs_clear pcs0 (color_of captured) (type_of captured) to else pcs0);
                      hm = (if captured \<noteq> Piece_None then 0
                            else if type \<noteq> Pawn then hm0 + 1 else 0)
                  in (pcs_set pcs color type to, brd0(to := moving_piece), hm, mws0))
             | Castle \<Rightarrow>
                 (let pcs = pcs_set pcs0 color King to;
                      brd = brd0(to := moving_piece);
                      rook_from = castle_rook_from to;
                      rook_to = castle_rook_to to;
                      rook = brd rook_from;
                      pcs' = pcs_set (pcs_clear pcs color Rook rook_from) color Rook rook_to
                  in (pcs', brd(rook_from := Piece_None, rook_to := rook), hm0 + 1, mws0))
             | EnPassant \<Rightarrow>
                 (let pcs = pcs_set pcs0 color type to;
                      brd = brd0(to := moving_piece);
                      captured_pawn_sq = (if color = White then to - 8 else to + 8);
                      enemy_color = opposite_color color
                  in (pcs_clear pcs enemy_color Pawn captured_pawn_sq,
                      brd(captured_pawn_sq := Piece_None), 0,
                      mws0\<lparr> captured_piece := make_piece enemy_color Pawn \<rparr>))
             | Promotion \<Rightarrow>
                 (let pcs = (if captured \<noteq> Piece_None
                             then pcs_clear pcs0 (color_of captured) (type_of captured) to else pcs0);
                      promo_type = type_of (promotion_piece move)
                  in (pcs_set pcs color promo_type to, brd0(to := promotion_piece move), 0, mws0))
             | MoveType_NB \<Rightarrow> (pcs0, brd0, hm0, mws0));
          cr = castling_after (castling_rights pos) type color from to;
          ep = en_passant_after type color from to;
          pos1 = update_bitboards (pos\<lparr> pieces := pcs1, board := brd1, halfmove_clock := hm1,
                                         castling_rights := cr, en_passant_square := ep \<rparr>);
          stm = opposite_color (side_to_move pos);
          pos2 = pos1\<lparr> side_to_move := stm,
                       fullmove_number := (if stm = White then fullmove_number pos + 1
                                           else fullmove_number pos),
                       move_history := move_history pos @ [mws1] \<rparr>
      in pos2\<lparr> hash_key := hash_position pos2 \<rparr>)"

definition undo_move :: "Position \<Rightarrow> Position" where
  "undo_move pos =
     (if move_history pos = [] then pos
      else
       let move = last (move_history pos);
           from = from_square move; to = to_square move;
           stm = opposite_color (side_to_move pos);
           fm = (if stm = Black then fullmove_number pos - 1 else fullmove_number pos);
           moving_piece = (if move_type move = Promotion then make_piece stm Pawn
                           else piece_on pos to);
           color = color_of moving_piece;
           type = type_of moving_piece;
           pcs0 = pieces pos; brd0 = board pos;
           cap = captured_piece move;
           (pcs1, brd1) =
             (case move_type move of
                Normal \<Rightarrow>
                  (let pcs = pcs_set (pcs_clear pcs0 color type to) color type from;
                       brd = brd0(to := Piece_None, from := moving_piece)
                   in if cap \<noteq> Piece_None
                      then (pcs_set pcs (color_of cap) (type_of cap) to, brd(to := cap))
                      else (pcs, brd))
              | Capture \<Rightarrow>
                  (let pcs = pcs_set (pcs_clear pcs0 color type to) color type from;
                       brd = brd0(to := Piece_None, from := moving_piece)
                   in if cap \<noteq> Piece_None
                      then (pcs_set pcs (color_of cap) (type_of cap) to, brd(to := cap))
                      else (pcs, brd))
              | Castle \<Rightarrow>
                  (let pcs = pcs_set (pcs_clear pcs0 color King to) color King from;
                       brd = brd0(to := Piece_None, from := moving_piece);
                       rook_from = castle_rook_to to;
                       rook_to = castle_rook_from to;
                       rook = brd rook_from
                   in (pcs_set (pcs_clear pcs color Rook rook_from) color Rook rook_to,
                       brd(rook_from := Piece_None, rook_to := rook)))
              | EnPassant \<Rightarrow>
                  (let pcs = pcs_set (pcs_clear pcs0 color Pawn to) color Pawn from;
                       brd = brd0(to := Piece_None, from := moving_piece);
                       captured_pawn_sq = (if color = White then to - 8 else to + 8);
                       enemy_color = opposite_color color
                   in (pcs_set pcs enemy_color Pawn captured_pawn_sq, brd(captured_pawn_sq := cap)))
              | Promotion \<Rightarrow>
                  (let promo_type = type_of (promotion_piece move);
                       pcs = pcs_set (pcs_clear pcs0 color promo_type to) color Pawn from;
                       brd = brd0(to := Piece_None, from := make_piece color Pawn)
                   in if cap \<noteq> Piece_None
                      then (pcs_set pcs (color_of cap) (type_of cap) to, brd(to := cap))
                      else (pcs, brd))
              | MoveType_NB \<Rightarrow> (pcs0, brd0));
           pos1 = update_bitboards (pos\<lparr> side_to_move := stm, fullmove_number := fm,
                     castling_rights := previous_castling_rights move,
                     en_passant_square := previous_en_passant_square move,
                     halfmove_clock := previous_halfmove_clock move,
                     pieces := pcs1, board := brd1 \<rparr>);
           pos2 = pos1\<lparr> move_history := butlast (move_history pos) \<rparr>
       in pos2\<lparr> hash_key := hash_position pos2 \<rparr>)"

text \<open>\<open>generate_legal_moves\<close>: the two-kings special case, then the filter that makes
  each pseudo-legal move on a copy and keeps it when the own king is not attacked.\<close>

definition only_kings :: "Position \<Rightarrow> bool" where
  "only_kings pos \<longleftrightarrow>
     (\<forall>c \<in> set [White, Black]. \<forall>pt \<in> set all_piece_types.
        \<not> (pt \<noteq> King \<and> count_bits (pieces pos c pt) > 0))"

definition leaves_king_safe :: "Position \<Rightarrow> Move \<Rightarrow> bool" where
  "leaves_king_safe pos move =
     (let test_pos = make_move pos move;
          enemy_color = (if side_to_move pos = White then Black else White);
          our_king = king_square test_pos (side_to_move pos)
      in \<not> is_square_attacked test_pos our_king enemy_color)"

definition generate_legal_moves :: "Position \<Rightarrow> Move list" where
  "generate_legal_moves pos =
     (if only_kings pos then []
      else filter (leaves_king_safe pos) (generate_all_moves pos [] (side_to_move pos)))"
section \<open>FEN parsing and printing (position.cpp, \<open>load_fen\<close> and \<open>to_fen\<close>)\<close>

text \<open>\<open>load_fen\<close> reads six fields from a \<open>std::istringstream\<close> with \<open>operator>>\<close>.
  The model of the stream is the list of characters not yet read. Formatted extraction
  skips leading white space. A string extraction takes the characters up to the next white
  space and fails when none is left. An \<open>int\<close> extraction reads an optional sign and
  decimal digits; it fails without touching its target when the input is exhausted, stores
  0 and fails when no digit is found, and stores the nearest limit and fails when the
  value does not fit 32 bits. After a failure the later extractions of the chain do
  nothing.\<close>

definition is_space :: "char \<Rightarrow> bool" where
  "is_space c \<longleftrightarrow> c \<in> set [CHR '' '', CHR 0x09, CHR 0x0A, CHR 0x0B, CHR 0x0C, CHR 0x0D]"

definition is_digit :: "char \<Rightarrow> bool" where
  "is_digit c \<longleftrightarrow> (48 :: nat) \<le> of_char c \<and> of_char c \<le> (57 :: nat)"

definition read_word :: "string \<Rightarrow> (string \<times> string) option" where
  "read_word s =
     (let s' = dropWhile is_space s
      in if s' = [] then None
         else Some (takeWhile (\<lambda>c. \<not> is_space c) s', dropWhile (\<lambda>c. \<not> is_space c) s'))"

fun digits_value :: "int \<Rightarrow> string \<Rightarrow> int" where
  "digits_value acc [] = acc"
| "digits_value acc (c # cs) = digits_value (acc * 10 + (int (of_char c) - 48)) cs"

datatype int_read =
    Int_ok int string
  | Int_fail_stored int
  | Int_fail_untouched

definition read_int :: "string \<Rightarrow> int_read" where
  "read_int s =
     (let s' = dropWhile is_space s
      in if s' = [] then Int_fail_untouched
         else let neg = (hd s' = CHR ''-'');
                  body = (if hd s' = CHR ''-'' \<or> hd s' = CHR ''+'' then tl s' else s');
                  ds = takeWhile is_digit body;
                  rest = dropWhile is_digit body;
                  v = (if neg then - digits_value 0 ds else digits_value 0 ds)
              in if ds = [] then Int_fail_stored 0
                 else if v > 2147483647 then Int_fail_stored 2147483647
                 else if v < - 2147483648 then Int_fail_stored (- 2147483648)
                 else Int_ok v rest)"

definition is_upper :: "char \<Rightarrow> bool" where
  "is_upper c \<longleftrightarrow> (65 :: nat) \<le> of_char c \<and> of_char c \<le> (90 :: nat)"

definition to_lower :: "char \<Rightarrow> char" where
  "to_lower c = (if is_upper c then char_of (of_char c + (32 :: nat)) else c)"

definition piece_type_of_letter :: "char \<Rightarrow> PieceType option" where
  "piece_type_of_letter c =
     (if c = CHR ''p'' then Some Pawn else if c = CHR ''n'' then Some Knight
      else if c = CHR ''b'' then Some Bishop else if c = CHR ''r'' then Some Rook
      else if c = CHR ''q'' then Some Queen else if c = CHR ''k'' then Some King
      else None)"

text \<open>The two ways \<open>load_fen\<close> can end: it returns true or it returns false, both
  with the position as the call leaves it.\<close>

datatype fen_result =
    Fen_ok Position
  | Fen_fail Position

text \<open>The placement loop over \<open>board_part\<close>, with the loop variables \<open>rank\<close> and
  \<open>file\<close>. The loop checks neither of them: after more than eight files in a rank or
  more than seven slashes, \<open>make_square\<close> yields an index outside 0..63, and
  \<open>board_[sq] = piece\<close> together with \<open>pieces_[color][type].set_bit(sq)\<close> then writes
  outside the 64 cells of \<open>board_\<close> and shifts by 64 or more. What the object holds
  after such a pair of statements depends on the layout of the object; it is the
  parameter \<open>overrun\<close> of the model, a function of the position, the index and the piece
  written. The loop goes on after it, as in the source.\<close>

fun parse_board ::
  "(Position \<Rightarrow> Square \<Rightarrow> Piece \<Rightarrow> Position) \<Rightarrow> string \<Rightarrow> int \<Rightarrow> int \<Rightarrow> Position \<Rightarrow> fen_result"
where
  "parse_board overrun [] rank file pos = Fen_ok pos"
| "parse_board overrun (ch # rest) rank file pos =
     (if ch = CHR ''/'' then parse_board overrun rest (rank - 1) 0 pos
      else if 49 \<le> (of_char ch :: nat) \<and> (of_char ch :: nat) \<le> 56
           then parse_board overrun rest rank (file + (int (of_char ch) - 48)) pos
      else let color = (if is_upper ch then White else Black)
           in case piece_type_of_letter (to_lower ch) of
                None \<Rightarrow> Fen_fail pos
              | Some type \<Rightarrow>
                  (let sq = make_square file rank;
                       piece = make_piece color type
                   in parse_board overrun rest rank (file + 1)
                        (if 0 \<le> sq \<and> sq < 64
                         then pos\<lparr> board := (board pos)(sq := piece),
                                   pieces := pcs_set (pieces pos) color type sq \<rparr>
                         else overrun pos sq piece)))"

definition string_to_square :: "string \<Rightarrow> Square" where
  "string_to_square s =
     (if length s < 2 then Square_NB
      else let file = to_lower (s ! 0); rank = s ! 1;
               f = (of_char file :: nat); r = (of_char rank :: nat)
           in if f < 97 \<or> f > 104 \<or> r < 49 \<or> r > 56 then Square_None
              else (int r - 49) * 8 + (int f - 97))"

definition parse_castling :: "string \<Rightarrow> 8 word" where
  "parse_castling castling =
     foldl (\<lambda>rights ch.
              if ch = CHR ''K'' then rights OR push_bit 0 1
              else if ch = CHR ''Q'' then rights OR push_bit 1 1
              else if ch = CHR ''k'' then rights OR push_bit 2 1
              else if ch = CHR ''q'' then rights OR push_bit 3 1
              else rights) 0 castling"

definition clear_position :: "Position \<Rightarrow> Position" where
  "clear_position pos =
     pos\<lparr> pieces := (\<lambda>c pt. if (c = White \<or> c = Black) \<and> pt \<in> set all_piece_types then 0
                             else pieces pos c pt),
          board := (\<lambda>sq. if 0 \<le> sq \<and> sq < 64 then Piece_None else board pos sq),
          move_history := [] \<rparr>"

text \<open>The chained extraction of the six fields. \<open>Fields_fail h f\<close> is a failed chain;
  \<open>h\<close> and \<open>f\<close> are what the chain has already written into \<open>halfmove_clock_\<close>
  and \<open>fullmove_number_\<close>, which are extracted in place.\<close>

datatype fen_fields =
    Fields string string string string int int
  | Fields_fail "int option" "int option"

definition write_clocks :: "int option \<Rightarrow> int option \<Rightarrow> Position \<Rightarrow> Position" where
  "write_clocks h f pos =
     (let p = (case h of None \<Rightarrow> pos | Some v \<Rightarrow> pos\<lparr> halfmove_clock := v \<rparr>)
      in case f of None \<Rightarrow> p | Some v \<Rightarrow> p\<lparr> fullmove_number := v \<rparr>)"

definition read_fields :: "string \<Rightarrow> fen_fields" where
  "read_fields fen =
     (case read_word fen of None \<Rightarrow> Fields_fail None None | Some (board_part, s1) \<Rightarrow>
      case read_word s1 of None \<Rightarrow> Fields_fail None None | Some (active_color, s2) \<Rightarrow>
      case read_word s2 of None \<Rightarrow> Fields_fail None None | Some (castling, s3) \<Rightarrow>
      case read_word s3 of None \<Rightarrow> Fields_fail None None | Some (ep_square, s4) \<Rightarrow>
      case read_int s4 of
        Int_fail_untouched \<Rightarrow> Fields_fail None None
      | Int_fail_stored h \<Rightarrow> Fields_fail (Some h) None
      | Int_ok h s5 \<Rightarrow>
      case read_int s5 of
        Int_fail_untouched \<Rightarrow> Fields_fail (Some h) None
      | Int_fail_stored f \<Rightarrow>
          Fields_fail (Some h) (Some f)
      | Int_ok f s6 \<Rightarrow> Fields board_part active_color castling ep_square h f)"

definition load_fen ::
  "(Position \<Rightarrow> Square \<Rightarrow> Piece \<Rightarrow> Position) \<Rightarrow> Position \<Rightarrow> string \<Rightarrow> fen_result"
where
  "load_fen overrun pos fen =
     (case read_fields fen of
        Fields_fail h f \<Rightarrow> Fen_fail (write_clocks h f pos)
      | Fields board_part active_color castling ep_square h f \<Rightarrow>
      case parse_board overrun board_part 7 0
             (clear_position (pos\<lparr> halfmove_clock := h, fullmove_number := f \<rparr>)) of
        Fen_fail p \<Rightarrow> Fen_fail p
      | Fen_ok p \<Rightarrow>
          (let p1 = update_bitboards
                      (p\<lparr> side_to_move := (if active_color = ''w'' then White else Black),
                          castling_rights := parse_castling castling,
                          en_passant_square := (if ep_square = ''-'' then Square_None
                                                else string_to_square ep_square) \<rparr>)
           in Fen_ok (p1\<lparr> hash_key := hash_position p1 \<rparr>)))"

text \<open>The constructor: everything empty, hash 0, then the starting position is loaded.
  The members the constructor does not initialise before \<open>load_fen\<close> overwrites them are
  given their loaded values here.\<close>

definition empty_position :: Position where
  "empty_position = \<lparr> pieces = (\<lambda>c pt. 0), occupied_by_color = (\<lambda>c. 0), occupied = 0,
     board = (\<lambda>sq. Piece_None), side_to_move = White, castling_rights = 0,
     en_passant_square = Square_None, halfmove_clock = 0, fullmove_number = 1,
     move_history = [], hash_key = 0 \<rparr>"

definition starting_fen :: string where
  "starting_fen = ''rnbqkbnr/pppppppp/8/8/8/8/PPPPPPPP/RNBQKBNR w KQkq - 0 1''"

text \<open>The position a FEN string loads into a fresh object. The strings used below keep
  every piece on the board, so the \<open>overrun\<close> argument plays no part.\<close>

definition position_of_fen :: "string \<Rightarrow> Position" where
  "position_of_fen fen =
     (case load_fen (\<lambda>pos sq piece. pos) empty_position fen of Fen_ok p \<Rightarrow> p | Fen_fail p \<Rightarrow> p)"

definition initial_position :: Position where
  "initial_position = position_of_fen starting_fen"

declare hash_position_def [code del]

subsection \<open>What a failed load leaves behind\<close>

text \<open>The fields of a FEN string: the maximal runs of characters that are not white
  space.\<close>

function split_fields :: "string \<Rightarrow> string list" where
  "split_fields s =
     (let s' = dropWhile is_space s
      in if s' = [] then []
         else takeWhile (\<lambda>c. \<not> is_space c) s' # split_fields (dropWhile (\<lambda>c. \<not> is_space c) s'))"
  by pat_completeness auto

lemma split_fields_measure:
  assumes "dropWhile is_space s \<noteq> []"
  shows "length (dropWhile (\<lambda>c. \<not> is_space c) (dropWhile is_space s)) < length s"
proof -
  obtain c cs where e: "dropWhile is_space s = c # cs" using assms by (cases "dropWhile is_space s") auto
  then have "\<not> is_space c" using hd_dropWhile[of is_space s] by auto
  then have "length (dropWhile (\<lambda>c. \<not> is_space c) (c # cs)) \<le> length cs"
    by (simp add: length_dropWhile_le)
  moreover have "length (c # cs) \<le> length s" using e length_dropWhile_le[of is_space s] by simp
  ultimately show ?thesis using e by simp
qed

termination split_fields
  by (relation "measure length") (simp_all add: split_fields_measure)

declare split_fields.simps [simp del]

definition placement_field :: "string \<Rightarrow> string" where
  "placement_field fen = (case split_fields fen of [] \<Rightarrow> [] | w # ws \<Rightarrow> w)"

text \<open>Whether the placement loop, started at \<open>rank\<close> and \<open>file\<close>, puts a piece letter on
  an index outside 0..63 before it ends or meets an unknown letter.\<close>

fun placement_overruns :: "string \<Rightarrow> int \<Rightarrow> int \<Rightarrow> bool" where
  "placement_overruns [] rank file = False"
| "placement_overruns (ch # rest) rank file =
     (if ch = CHR ''/'' then placement_overruns rest (rank - 1) 0
      else if 49 \<le> (of_char ch :: nat) \<and> (of_char ch :: nat) \<le> 56
           then placement_overruns rest rank (file + (int (of_char ch) - 48))
      else if to_lower ch \<notin> set ''pnbrqk'' then False
      else rank * 8 + file < 0 \<or> 63 < rank * 8 + file \<or> placement_overruns rest rank (file + 1))"

definition fields_readable :: "string \<Rightarrow> bool" where
  "fields_readable fen = (case read_fields fen of Fields_fail h f \<Rightarrow> False | _ \<Rightarrow> True)"

text \<open>The members \<open>load_fen\<close> only writes after the placement has been parsed.\<close>

definition same_late_members :: "Position \<Rightarrow> Position \<Rightarrow> bool" where
  "same_late_members p q \<longleftrightarrow>
     side_to_move p = side_to_move q \<and> castling_rights p = castling_rights q \<and>
     en_passant_square p = en_passant_square q \<and> hash_key p = hash_key q \<and>
     occupied p = occupied q \<and> occupied_by_color p = occupied_by_color q"

definition same_placement :: "Position \<Rightarrow> Position \<Rightarrow> bool" where
  "same_placement p q \<longleftrightarrow>
     board p = board q \<and> pieces p = pieces q \<and> move_history p = move_history q"

lemma piece_letter_iff: "c \<notin> set ''pnbrqk'' \<longleftrightarrow> piece_type_of_letter c = None"
  by (simp add: piece_type_of_letter_def)

lemma parse_board_fail_late:
  "parse_board overrun s rk fl p = Fen_fail p' \<Longrightarrow> \<not> placement_overruns s rk fl
     \<Longrightarrow> same_late_members p' p"
proof (induction overrun s rk fl p rule: parse_board.induct)
  case (1 overrun rk fl pos)
  then show ?case by simp
next
  case (2 overrun ch rest rk fl pos)
  show ?case
  proof (cases "ch = CHR ''/''")
    case True
    then show ?thesis using 2 by simp
  next
    case nslash: False
    show ?thesis
    proof (cases "49 \<le> (of_char ch :: nat) \<and> (of_char ch :: nat) \<le> 56")
      case True
      then show ?thesis using 2 nslash by simp
    next
      case ndigit: False
      show ?thesis
      proof (cases "piece_type_of_letter (to_lower ch)")
        case None
        then show ?thesis using "2.prems" nslash ndigit by (simp add: same_late_members_def)
      next
        case (Some type)
        let ?color = "if is_upper ch then White else Black"
        let ?sq = "make_square fl rk"
        have letter: "\<not> to_lower ch \<notin> set ''pnbrqk''" using Some piece_letter_iff by fastforce
        have inrange: "0 \<le> ?sq \<and> ?sq < 64" and rest: "\<not> placement_overruns rest rk (fl + 1)"
          using "2.prems"(2) nslash ndigit letter by (auto simp: make_square_def)
        let ?p = "pos\<lparr> board := (board pos)(?sq := make_piece ?color type),
                          pieces := pcs_set (pieces pos) ?color type ?sq \<rparr>"
        have rec: "parse_board overrun rest rk (fl + 1) ?p = Fen_fail p'"
          using "2.prems"(1) nslash ndigit Some inrange by (simp add: Let_def)
        have "same_late_members p' ?p"
          using "2.IH"(3)[OF nslash ndigit refl Some refl refl _ rest] rec inrange by simp
        then show ?thesis by (simp add: same_late_members_def)
      qed
    qed
  qed
qed

lemma read_word_None: "read_word s = None \<longleftrightarrow> split_fields s = []"
  by (subst split_fields.simps) (simp add: read_word_def Let_def)

lemma read_word_Some: "read_word s = Some (w, r) \<Longrightarrow> split_fields s = w # split_fields r"
  by (subst split_fields.simps) (auto simp: read_word_def Let_def split: if_splits)

lemma read_int_untouched: "split_fields s = [] \<Longrightarrow> read_int s = Int_fail_untouched"
  by (subst (asm) split_fields.simps) (simp add: read_int_def Let_def split: if_splits)

lemma few_fields:
  assumes "length (split_fields fen) < 5"
  shows "read_fields fen = Fields_fail None None"
proof (cases "read_word fen")
  case None then show ?thesis by (simp add: read_fields_def)
next
  case (Some a1)
  obtain w1 s1 where a1: "a1 = (w1, s1)" by (cases a1)
  note f1 = read_word_Some[OF Some[unfolded a1]]
  show ?thesis
  proof (cases "read_word s1")
    case None then show ?thesis using Some a1 by (simp add: read_fields_def)
  next
    case (Some a2)
    obtain w2 s2 where a2: "a2 = (w2, s2)" by (cases a2)
    note r2 = Some[unfolded a2]
    note f2 = read_word_Some[OF r2]
    show ?thesis
    proof (cases "read_word s2")
      case None then show ?thesis using \<open>read_word fen = Some a1\<close> a1 r2 by (simp add: read_fields_def)
    next
      case (Some a3)
      obtain w3 s3 where a3: "a3 = (w3, s3)" by (cases a3)
      note r3 = Some[unfolded a3]
      note f3 = read_word_Some[OF r3]
      show ?thesis
      proof (cases "read_word s3")
        case None then show ?thesis using \<open>read_word fen = Some a1\<close> a1 r2 r3 by (simp add: read_fields_def)
      next
        case (Some a4)
        obtain w4 s4 where a4: "a4 = (w4, s4)" by (cases a4)
        note r4 = Some[unfolded a4]
        note f4 = read_word_Some[OF r4]
        have "split_fields s4 = []" using assms f1 f2 f3 f4 by simp
        then have "read_int s4 = Int_fail_untouched" by (rule read_int_untouched)
        then show ?thesis using \<open>read_word fen = Some a1\<close> a1 r2 r3 r4 by (simp add: read_fields_def)
      qed
    qed
  qed
qed

lemma read_fields_first:
  assumes "read_fields fen = Fields board_part active_color castling ep_square h f"
  shows "\<exists>r. read_word fen = Some (board_part, r)"
proof (cases "read_word fen")
  case None then show ?thesis using assms by (simp add: read_fields_def)
next
  case (Some a)
  obtain w r where a: "a = (w, r)" by (cases a)
  have "w = board_part"
    using assms Some a
    by (simp add: read_fields_def split: option.splits prod.splits int_read.splits)
  then show ?thesis using Some a by simp
qed

lemma placement_field_read:
  assumes "read_fields fen = Fields board_part active_color castling ep_square h f"
  shows "placement_field fen = board_part"
proof -
  obtain r where "read_word fen = Some (board_part, r)" using read_fields_first[OF assms] ..
  then show ?thesis using read_word_Some by (simp add: placement_field_def)
qed

text \<open>Claim C8 (amended). Let \<open>load_fen\<close> return false on a string. If the string has
  fewer than five fields, the Position is exactly what it was before the call. If the
  extraction of the six fields fails later (a missing or unreadable clock), side to move,
  castling rights, en-passant square, hash key, the occupancy aggregates, the board array,
  the piece bitboards and the move history are what they were; only the clocks, which are
  extracted in place, may have been overwritten. If the extraction succeeds and the
  placement field holds an unknown piece letter, side to move, castling rights, en-passant
  square, hash key and the occupancy aggregates are what they were, provided no piece letter
  before the unknown one was put outside the squares 0..63; the board array, the piece
  bitboards and the move history have been cleared and partly refilled by then and the
  clocks overwritten. The statement holds whatever a write outside \<open>board_\<close> does to the
  object (for every \<open>overrun\<close>).\<close>

theorem load_fen_failure_leaves:
  assumes "load_fen overrun pos fen = Fen_fail pos'"
  shows "(length (split_fields fen) < 5 \<longrightarrow> pos' = pos) \<and>
         (\<not> fields_readable fen \<longrightarrow> same_late_members pos' pos \<and> same_placement pos' pos) \<and>
         (\<not> placement_overruns (placement_field fen) 7 0 \<longrightarrow> same_late_members pos' pos)"
proof (cases "read_fields fen")
  case (Fields board_part active_color castling ep_square h f)
  let ?p0 = "clear_position (pos\<lparr> halfmove_clock := h, fullmove_number := f \<rparr>)"
  have pf: "placement_field fen = board_part" using Fields by (rule placement_field_read)
  have five: "\<not> length (split_fields fen) < 5" using few_fields[of fen] Fields by auto
  have fail: "parse_board overrun board_part 7 0 ?p0 = Fen_fail pos'"
    using assms Fields by (simp add: load_fen_def Let_def split: fen_result.splits)
  have "same_late_members pos' pos" if "\<not> placement_overruns board_part 7 0"
  proof -
    have "same_late_members pos' ?p0" using fail that by (rule parse_board_fail_late)
    then show ?thesis by (simp add: same_late_members_def clear_position_def)
  qed
  then show ?thesis using Fields five pf by (simp add: fields_readable_def)
next
  case (Fields_fail h f)
  have e: "pos' = write_clocks h f pos" using assms Fields_fail by (simp add: load_fen_def)
  have "pos' = pos" if "length (split_fields fen) < 5"
    using few_fields[OF that] Fields_fail e by (simp add: write_clocks_def)
  moreover have "same_late_members pos' pos \<and> same_placement pos' pos"
    using e by (auto simp: same_late_members_def same_placement_def write_clocks_def
                     split: option.splits)
  ultimately show ?thesis by blast
qed


text \<open>One case of an overrun, used to make the examples below closed. With the members
  laid out in declaration order, \<open>board_[64]\<close> is the storage of \<open>side_to_move_\<close>, the
  member declared right after the array, and both are enumerations of the size of an
  \<open>int\<close>: a piece written to index 64 is read back as the colour with the same integer
  value. Other indices are left without effect here.\<close>

definition overrun_next_member :: "Position \<Rightarrow> Square \<Rightarrow> Piece \<Rightarrow> Position" where
  "overrun_next_member pos sq piece =
     (if sq = 64 then pos\<lparr> side_to_move := Color_of_int (int_of_Piece piece) \<rparr> else pos)"

text \<open>The inputs used below: the string of the repository's own failure test
  (\<open>"invalid fen string"\<close>, three fields), a string whose sixth field is missing, and a
  placement with the unknown letter \<open>x\<close> after a black king on a8, all loaded into the
  position \<open>4k3/8/8/8/8/8/8/4K3 w - - 0 1\<close>.\<close>

definition two_kings_fen :: string where
  "two_kings_fen = ''4k3/8/8/8/8/8/8/4K3 w - - 0 1''"

definition two_kings :: Position where
  "two_kings = position_of_fen two_kings_fen"

lemma read_bad_letter: "read_fields ''k6x w - - 0 1'' = Fields ''k6x'' ''w'' ''-'' ''-'' 0 1"
  by code_simp

lemma read_short: "read_fields ''8/8/8/8/8/8/8/8 w - - 5'' = Fields_fail (Some 5) None"
  by code_simp

lemma read_invalid: "read_fields ''invalid fen string'' = Fields_fail None None"
  by code_simp

lemma fields_invalid: "split_fields ''invalid fen string'' = [''invalid'', ''fen'', ''string'']"
  by code_simp

lemma placement_bad_letter:
  "placement_field ''k6x w - - 0 1'' = ''k6x'' \<and> \<not> placement_overruns ''k6x'' 7 0"
  by code_simp

definition after_bad_letter :: "Position \<Rightarrow> Position" where
  "after_bad_letter pos =
     (let p = clear_position (pos\<lparr> halfmove_clock := 0, fullmove_number := 1 \<rparr>)
      in p\<lparr> board := (board p)(A8 := BlackKing), pieces := pcs_set (pieces p) Black King A8 \<rparr>)"

lemma load_bad_letter: "load_fen overrun pos ''k6x w - - 0 1'' = Fen_fail (after_bad_letter pos)"
  by (simp add: load_fen_def read_bad_letter piece_type_of_letter_def to_lower_def is_upper_def
        make_square_def make_piece_def Piece_of_int_def after_bad_letter_def Let_def)

lemma load_short:
  "load_fen overrun pos ''8/8/8/8/8/8/8/8 w - - 5'' = Fen_fail (pos\<lparr> halfmove_clock := 5 \<rparr>)"
  by (simp add: load_fen_def read_short write_clocks_def)

lemma load_invalid: "load_fen overrun pos ''invalid fen string'' = Fen_fail pos"
  by (simp add: load_fen_def read_invalid write_clocks_def)

lemma two_kings_e1: "piece_on two_kings E1 = WhiteKing"
  by code_simp

lemma two_kings_halfmove: "halfmove_clock two_kings = 0"
  by code_simp

lemma two_kings_side: "side_to_move two_kings = White"
  by code_simp

lemma after_bad_letter_e1: "piece_on (after_bad_letter pos) E1 = Piece_None"
  by (simp add: after_bad_letter_def clear_position_def piece_on_def Let_def)

theorem load_fen_failure_leaves_witness:
  "load_fen overrun_next_member two_kings ''invalid fen string'' = Fen_fail two_kings \<and>
   length (split_fields ''invalid fen string'') < 5 \<and>
   load_fen overrun_next_member two_kings ''8/8/8/8/8/8/8/8 w - - 5''
     = Fen_fail (two_kings\<lparr> halfmove_clock := 5 \<rparr>) \<and>
   \<not> fields_readable ''8/8/8/8/8/8/8/8 w - - 5'' \<and>
   same_late_members (two_kings\<lparr> halfmove_clock := 5 \<rparr>) two_kings \<and>
   same_placement (two_kings\<lparr> halfmove_clock := 5 \<rparr>) two_kings \<and>
   load_fen overrun_next_member two_kings ''k6x w - - 0 1'' = Fen_fail (after_bad_letter two_kings) \<and>
   \<not> placement_overruns (placement_field ''k6x w - - 0 1'') 7 0 \<and>
   same_late_members (after_bad_letter two_kings) two_kings"
  using load_fen_failure_leaves[OF load_invalid[of overrun_next_member two_kings]]
        load_fen_failure_leaves[OF load_short[of overrun_next_member two_kings]]
        load_fen_failure_leaves[OF load_bad_letter[of overrun_next_member two_kings]]
  by (simp add: load_bad_letter load_short load_invalid fields_readable_def read_short
        fields_invalid placement_bad_letter)

text \<open>The claim as stated (Position exactly as before on every failure) fails on both
  later failure paths. The unknown piece letter is found after the position has been
  cleared: the white king of \<open>two_kings\<close> is gone from E1. The missing sixth field is found
  after the fifth has been extracted into \<open>halfmove_clock_\<close>: the clock is 5 where it
  was 0.\<close>

theorem load_fen_failure_counterexample:
  "(case load_fen overrun_next_member two_kings ''k6x w - - 0 1'' of
      Fen_fail p \<Rightarrow> piece_on p E1 = Piece_None \<and> piece_on two_kings E1 = WhiteKing
    | _ \<Rightarrow> False) \<and>
   (case load_fen overrun_next_member two_kings ''8/8/8/8/8/8/8/8 w - - 5'' of
      Fen_fail p \<Rightarrow> halfmove_clock p = 5 \<and> halfmove_clock two_kings = 0
    | _ \<Rightarrow> False)"
  by (simp add: load_bad_letter load_short two_kings_e1 two_kings_halfmove after_bad_letter_e1)

text \<open>Why the unknown-letter case excludes placements that leave the board. On
  \<open>8Nx w - - 0 1\<close> the knight is written to index 7 * 8 + 8 = 64, which stores the value of
  \<open>WhiteKnight\<close>, 1, where \<open>side_to_move_\<close> lives: the side to move is Black when the
  unknown letter \<open>x\<close> makes the call return false.\<close>

lemma read_off_board: "read_fields ''8Nx w - - 0 1'' = Fields ''8Nx'' ''w'' ''-'' ''-'' 0 1"
  by code_simp

lemma placement_off_board:
  "placement_field ''8Nx w - - 0 1'' = ''8Nx'' \<and> placement_overruns ''8Nx'' 7 0"
  by code_simp

lemma letter_N: "is_upper CHR ''N'' \<and> to_lower CHR ''N'' = CHR ''n''"
  by code_simp

lemma letter_x: "to_lower CHR ''x'' = CHR ''x''"
  by code_simp

lemma overrun_reaches_side_to_move:
  "(case load_fen overrun_next_member two_kings ''8Nx w - - 0 1'' of
      Fen_fail p \<Rightarrow> side_to_move p = Black \<and> side_to_move two_kings = White
    | _ \<Rightarrow> False) \<and>
   placement_overruns (placement_field ''8Nx w - - 0 1'') 7 0"
  by (simp add: load_fen_def read_off_board piece_type_of_letter_def letter_N letter_x
        make_square_def make_piece_def Piece_of_int_def Color_of_int_def overrun_next_member_def
        clear_position_def two_kings_side placement_off_board Let_def)
section \<open>Evaluating the model on concrete positions\<close>

text \<open>The rewrite rules used to run the model on concrete inputs: the definitions, with
  the bit loops replaced by their proved closed forms. \<open>hash_position\<close> is left folded:
  no result below depends on the value of a key.\<close>

named_theorems chess_eval

lemma serialize_eval:
  "serialize bb = (if bb = 0 then [] else lsb_of bb # serialize (bb AND NOT (push_bit (lsb_of bb) 1)))"
  using serialize_nonzero[of bb] serialize_zero by simp

lemma pop_lsb_eval:
  "pop_lsb b = (if b = 0 then (65, b) else (lsb_of b, b AND NOT (push_bit (lsb_of b) 1)))"
  using pop_lsb_eq[of b] by (simp add: pop_lsb_def)

lemma get_lsb_index_eval: "get_lsb_index b = (if b = 0 then 65 else lsb_of b)"
  using get_lsb_index_eq[of b] by (simp add: get_lsb_index_def)

lemmas [chess_eval] =
  count_bits_pos serialize_eval pop_lsb_eval get_lsb_index_eval lsb_of_fast
  get_msb_index_def msb_loop.simps
  file_of_def rank_of_def signed_divide_int_def signed_modulo_int_def make_square_def
  make_piece_def type_of_def color_of_def Piece_of_int_def PieceType_of_int_def Color_of_int_def
  mk_Move_def Move_default_def move_eq_def
  bit_index_def set_bit_bb_def clear_bit_bb_def is_bit_set_def
  generate_ray_def ray_table_def bishop_directions_def rook_directions_def
  bishop_step_def bishop_attacks_def rook_step_def rook_attacks_def queen_attacks_def
  knight_attacks_table_def king_attacks_table_def pawn_attacks_table_def
  knight_attacks_def king_attacks_def pawn_attacks_def
  opposite_color_def piece_on_def move_count_def all_piece_types_def color_occupancy_def
  update_bitboards_def king_square_def
  is_square_attacked_def is_in_check_def target_moves_def
  generate_knight_moves_def generate_bishop_moves_def generate_rook_moves_def
  generate_queen_moves_def generate_king_moves_def has_right_def generate_castling_moves_def
  promotion_moves_def pawn_moves_from_def generate_pawn_moves_def generate_all_moves_def
  pcs_set_def pcs_clear_def clear_right_def castle_rook_from_def castle_rook_to_def
  castling_after_def en_passant_after_def make_move_def undo_move_def
  only_kings_def leaves_king_safe_def generate_legal_moves_def
  Let_def upto.simps

lemmas [chess_eval] =
  is_space_def is_digit_def read_word_def read_int_def is_upper_def to_lower_def
  piece_type_of_letter_def string_to_square_def parse_castling_def clear_position_def
  write_clocks_def read_fields_def load_fen_def empty_position_def position_of_fen_def
section \<open>Search (search.h, search.cpp)\<close>

text \<open>The state of a \<open>Search\<close> object that the three recursive functions read and
  write. \<open>time_manager\<close> is the pointer \<open>time_manager_\<close>: \<open>None\<close> is the null pointer,
  \<open>Some answers\<close> a manager whose coming calls of \<open>should_stop()\<close> return the elements
  of \<open>answers\<close> in turn (\<open>False\<close> once the list is used up). The wall clock itself is
  outside the model; the list stands for what it will say.\<close>

record Search =
  stop_search :: bool
  nodes_since_time_check :: int
  nodes_searched :: int
  tt :: TranspositionTable
  killer_moves :: "nat \<Rightarrow> nat \<Rightarrow> Move"
  tt_hits :: int
  tt_cutoffs :: int
  time_manager :: "bool list option"

definition should_check_time :: "Search \<Rightarrow> bool \<times> Search" where
  "should_check_time st =
     (let n = nodes_since_time_check st + 1
      in if n \<ge> CHECK_FREQUENCY
         then (case time_manager st of
                 None \<Rightarrow> (False, st\<lparr> nodes_since_time_check := 0 \<rparr>)
               | Some [] \<Rightarrow> (False, st\<lparr> nodes_since_time_check := 0 \<rparr>)
               | Some (a # as) \<Rightarrow>
                   (a, st\<lparr> nodes_since_time_check := 0, time_manager := Some as \<rparr>))
         else (False, st\<lparr> nodes_since_time_check := n \<rparr>))"

definition TT_MOVE_SCORE :: int where "TT_MOVE_SCORE = 15000"
definition WINNING_CAPTURE_SCORE :: int where "WINNING_CAPTURE_SCORE = 10000"
definition PROMOTION_SCORE :: int where "PROMOTION_SCORE = 9500"
definition KILLER_MOVE_1_SCORE :: int where "KILLER_MOVE_1_SCORE = 8000"
definition KILLER_MOVE_2_SCORE :: int where "KILLER_MOVE_2_SCORE = 7000"

definition MVV_LVA_OFFSET :: "int list list" where
  "MVV_LVA_OFFSET =
     [[105, 205, 305, 405, 505, 605],
      [104, 204, 304, 404, 504, 604],
      [103, 203, 303, 403, 503, 603],
      [102, 202, 302, 402, 502, 602],
      [101, 201, 301, 401, 501, 601],
      [100, 200, 300, 400, 500, 600]]"

fun get_piece_value :: "PieceType \<Rightarrow> int" where
  "get_piece_value Pawn = 100"
| "get_piece_value Knight = 320"
| "get_piece_value Bishop = 330"
| "get_piece_value Rook = 500"
| "get_piece_value Queen = 900"
| "get_piece_value King = 20000"
| "get_piece_value PieceType_NB = 0"

text \<open>The index both \<open>order_moves\<close> and the cutoff code use for the killer table.\<close>

definition killer_index :: "Position \<Rightarrow> nat" where
  "killer_index pos = nat (min (int (move_count pos)) (MAX_PLY - 1))"

definition move_order_score :: "Search \<Rightarrow> Position \<Rightarrow> Move \<Rightarrow> Move \<Rightarrow> int" where
  "move_order_score st pos tt_move move =
     (if from_square tt_move \<noteq> Square_None \<and> move_eq move tt_move then TT_MOVE_SCORE
      else if move_type move = Capture \<or> move_type move = EnPassant
      then let victim = (if move_type move = EnPassant
                         then if side_to_move pos = White then BlackPawn else WhitePawn
                         else piece_on pos (to_square move));
               attacker = piece_on pos (from_square move)
           in if attacker \<noteq> Piece_None \<and> victim \<noteq> Piece_None
              then WINNING_CAPTURE_SCORE +
                   MVV_LVA_OFFSET ! nat (int_of_PieceType (type_of attacker))
                                  ! nat (int_of_PieceType (type_of victim))
              else 0
      else if move_type move = Promotion
      then PROMOTION_SCORE + get_piece_value (type_of (promotion_piece move))
      else if move_eq move (killer_moves st (killer_index pos) 0) then KILLER_MOVE_1_SCORE
      else if move_eq move (killer_moves st (killer_index pos) 1) then KILLER_MOVE_2_SCORE
      else 0)"

text \<open>\<open>order_moves\<close> sorts by descending score with \<open>std::sort\<close>, which may order
  moves of equal score either way; the model keeps their order. No theorem below depends
  on the order of the list.\<close>

definition order_moves :: "Search \<Rightarrow> Move list \<Rightarrow> Position \<Rightarrow> Move \<Rightarrow> Move list" where
  "order_moves st moves pos tt_move =
     sort_key (\<lambda>m. - move_order_score st pos tt_move m) moves"

text \<open>The transposition-table stage at the top of \<open>negamax\<close>: either the node returns
  a stored score at once (\<open>Inl\<close>), or the search goes on with a possibly narrowed window
  and the stored move (\<open>Inr\<close>).\<close>

definition tt_stage :: "Search \<Rightarrow> 64 word \<Rightarrow> int \<Rightarrow> int \<Rightarrow> int \<Rightarrow> int
    \<Rightarrow> (int \<times> Search) + (int \<times> int \<times> Move \<times> Search)" where
  "tt_stage st hash depth alpha beta ply =
     (case probe (tt st) hash ply of
        None \<Rightarrow> Inr (alpha, beta, Move_default, st)
      | Some (tt_score, tt_depth, tt_bound, tt_move) \<Rightarrow>
          if tt_depth \<ge> depth
          then let hit = st\<lparr> tt_hits := tt_hits st + 1 \<rparr>;
                   cut = hit\<lparr> tt_cutoffs := tt_cutoffs st + 1 \<rparr>;
                   r = (case tt_bound of
                          EXACT \<Rightarrow> Inl (tt_score, cut)
                        | LOWER_BOUND \<Rightarrow>
                            if tt_score \<ge> beta then Inl (tt_score, cut)
                            else Inr (max alpha tt_score, beta, tt_move, hit)
                        | UPPER_BOUND \<Rightarrow>
                            if tt_score \<le> alpha then Inl (tt_score, cut)
                            else Inr (alpha, min beta tt_score, tt_move, hit)
                        | NONE \<Rightarrow> Inr (alpha, beta, tt_move, st))
               in (case r of
                     Inl x \<Rightarrow> Inl x
                   | Inr (a, b, mv, s) \<Rightarrow>
                       if a \<ge> b then Inl (tt_score, s\<lparr> tt_cutoffs := tt_cutoffs s + 1 \<rparr>)
                       else Inr (a, b, mv, s))
          else Inr (alpha, beta, tt_move, st\<lparr> tt_hits := tt_hits st + 1 \<rparr>))"

definition record_killer :: "Search \<Rightarrow> nat \<Rightarrow> Move \<Rightarrow> Search" where
  "record_killer st killer_ply move =
     (let km = killer_moves st;
          row1 = (km killer_ply)(1 := km killer_ply 0);
          row2 = row1(0 := move)
      in st\<lparr> killer_moves := km(killer_ply := row2) \<rparr>)"

type_synonym search_result = "(int \<times> Search \<times> Position) option"

text \<open>The move loop of \<open>negamax\<close>. \<open>child\<close> is the recursive call; the loop returns
  \<open>best_score\<close> and \<open>best_move\<close> as they stand when it is left, with the state and the
  position.\<close>

fun negamax_loop :: "(Search \<Rightarrow> Position \<Rightarrow> int \<Rightarrow> int \<Rightarrow> int \<Rightarrow> int \<Rightarrow> search_result)
    \<Rightarrow> Move list \<Rightarrow> Search \<Rightarrow> Position \<Rightarrow> int \<Rightarrow> int \<Rightarrow> int \<Rightarrow> int \<Rightarrow> int \<Rightarrow> Move
    \<Rightarrow> (int \<times> Move \<times> Search \<times> Position) option" where
  "negamax_loop child [] st pos depth alpha beta ply best_score best_move =
     Some (best_score, best_move, st, pos)"
| "negamax_loop child (move # rest) st pos depth alpha beta ply best_score best_move =
     (if stop_search st then Some (best_score, best_move, st, pos)
      else case child st (make_move pos move) (depth - 1) (- beta) (- alpha) (ply + 1) of
        None \<Rightarrow> None
      | Some (v, st1, pos1) \<Rightarrow>
          let score = - v;
              pos2 = undo_move pos1
          in if stop_search st1 then Some (best_score, best_move, st1, pos2)
             else let best_score' = (if score > best_score then score else best_score);
                      best_move' = (if score > best_score then move else best_move);
                      alpha' = (if score > best_score \<and> score > alpha then score else alpha)
                  in if score \<ge> beta
                     then let killer_ply = killer_index pos2;
                              st2 = (if move_type move \<noteq> Capture
                                     then record_killer st1 killer_ply move else st1)
                          in Some (beta, move, st2, pos2)
                     else negamax_loop child rest st1 pos2 depth alpha' beta ply
                            best_score' best_move')"

text \<open>The move loop of \<open>negamax_root\<close>: it also returns whether it left by the beta
  cutoff (\<open>return beta\<close>) and the out-parameter \<open>best_move\<close>.\<close>

fun root_loop :: "(Search \<Rightarrow> Position \<Rightarrow> int \<Rightarrow> int \<Rightarrow> int \<Rightarrow> int \<Rightarrow> search_result)
    \<Rightarrow> Move list \<Rightarrow> Search \<Rightarrow> Position \<Rightarrow> int \<Rightarrow> int \<Rightarrow> int \<Rightarrow> int \<Rightarrow> int \<Rightarrow> Move
    \<Rightarrow> (int \<times> Move \<times> Search \<times> Position) option" where
  "root_loop child [] st pos depth alpha beta ply best_score best_move =
     Some (best_score, best_move, st, pos)"
| "root_loop child (move # rest) st pos depth alpha beta ply best_score best_move =
     (if stop_search st then Some (best_score, best_move, st, pos)
      else case child st (make_move pos move) (depth - 1) (- beta) (- alpha) (ply + 1) of
        None \<Rightarrow> None
      | Some (v, st1, pos1) \<Rightarrow>
          let score = - v;
              pos2 = undo_move pos1
          in if stop_search st1 then Some (best_score, best_move, st1, pos2)
             else let best_score' = (if score > best_score then score else best_score);
                      best_move' = (if score > best_score then move else best_move);
                      alpha' = (if score > best_score \<and> score > alpha then score else alpha)
                  in if score \<ge> beta
                     then let st2 = (if move_type move \<noteq> Capture
                                     then record_killer st1 0 move else st1)
                          in Some (beta, best_move', st2, pos2)
                     else root_loop child rest st1 pos2 depth alpha' beta ply
                            best_score' best_move')"

text \<open>The capture loop of \<open>quiescence\<close>; it returns the value \<open>quiescence\<close> returns.\<close>

fun quiescence_loop :: "(Search \<Rightarrow> Position \<Rightarrow> int \<Rightarrow> int \<Rightarrow> int \<Rightarrow> search_result)
    \<Rightarrow> Move list \<Rightarrow> Search \<Rightarrow> Position \<Rightarrow> int \<Rightarrow> int \<Rightarrow> int \<Rightarrow> search_result" where
  "quiescence_loop child [] st pos alpha beta ply = Some (alpha, st, pos)"
| "quiescence_loop child (move # rest) st pos alpha beta ply =
     (if stop_search st then Some (alpha, st, pos)
      else case child st (make_move pos move) (- beta) (- alpha) (ply + 1) of
        None \<Rightarrow> None
      | Some (v, st1, pos1) \<Rightarrow>
          let score = - v;
              pos2 = undo_move pos1
          in if score \<ge> beta then Some (beta, st1, pos2)
             else quiescence_loop child rest st1 pos2 (if score > alpha then score else alpha)
                    beta ply)"

text \<open>The recursion is bounded by fuel: \<open>None\<close> is a call that has not returned within
  it. The evaluator (\<open>evaluator_->evaluate\<close>) is a parameter \<open>ev\<close>; only the stand-pat
  of \<open>quiescence\<close> calls it.\<close>

fun quiescence :: "nat \<Rightarrow> (Position \<Rightarrow> int) \<Rightarrow> Search \<Rightarrow> Position \<Rightarrow> int \<Rightarrow> int \<Rightarrow> int
    \<Rightarrow> search_result" where
  "quiescence 0 ev st pos alpha beta ply = None"
| "quiescence (Suc n) ev st pos alpha beta ply =
     (case should_check_time st of
        (True, st1) \<Rightarrow> Some (0, st1\<lparr> stop_search := True \<rparr>, pos)
      | (False, st1) \<Rightarrow>
          let st2 = st1\<lparr> nodes_searched := nodes_searched st1 + 1 \<rparr>;
              stand_pat = ev pos
          in if stand_pat \<ge> beta then Some (beta, st2, pos)
             else let alpha1 = (if alpha < stand_pat then stand_pat else alpha);
                      captures = filter (\<lambda>m. move_type m = Capture \<or> move_type m = EnPassant \<or>
                                               move_type m = Promotion)
                                   (generate_legal_moves pos);
                      ordered = order_moves st2 captures pos Move_default
                  in quiescence_loop (quiescence n ev) ordered st2 pos alpha1 beta ply)"

fun negamax :: "nat \<Rightarrow> (Position \<Rightarrow> int) \<Rightarrow> Search \<Rightarrow> Position \<Rightarrow> int \<Rightarrow> int \<Rightarrow> int \<Rightarrow> int
    \<Rightarrow> search_result" where
  "negamax 0 ev st pos depth alpha beta ply = None"
| "negamax (Suc n) ev st pos depth alpha beta ply =
     (case should_check_time st of
        (True, st1) \<Rightarrow> Some (0, st1\<lparr> stop_search := True \<rparr>, pos)
      | (False, st1) \<Rightarrow>
          let st2 = st1\<lparr> nodes_searched := nodes_searched st1 + 1 \<rparr>;
              original_alpha = alpha;
              hash = hash_key pos
          in case tt_stage st2 hash depth alpha beta ply of
               Inl (tt_score, st3) \<Rightarrow> Some (tt_score, st3, pos)
             | Inr (alpha1, beta1, tt_move, st3) \<Rightarrow>
                 let legal_moves = generate_legal_moves pos
                 in if legal_moves = []
                    then if is_in_check pos
                         then Some (- MATE_SCORE + int (move_count pos), st3, pos)
                         else Some (0, st3, pos)
                    else if depth = 0 then quiescence n ev st3 pos alpha1 beta1 ply
                    else case negamax_loop (negamax n ev)
                                (order_moves st3 legal_moves pos tt_move)
                                st3 pos depth alpha1 beta1 ply (- INFINITY_SCORE) Move_default of
                           None \<Rightarrow> None
                         | Some (best_score, best_move, st4, pos4) \<Rightarrow>
                             let bound_type = (if best_score \<le> original_alpha then UPPER_BOUND
                                               else if best_score \<ge> beta1 then LOWER_BOUND
                                               else EXACT)
                             in Some (best_score,
                                      st4\<lparr> tt := store (tt st4) hash best_score depth bound_type
                                                      best_move ply \<rparr>,
                                      pos4))"

text \<open>\<open>negamax_root\<close> returns the score; the out-parameter \<open>best_move\<close> is the fourth
  component.\<close>

definition negamax_root :: "nat \<Rightarrow> (Position \<Rightarrow> int) \<Rightarrow> Search \<Rightarrow> Position \<Rightarrow> int \<Rightarrow> int \<Rightarrow> int
    \<Rightarrow> Move \<Rightarrow> int \<Rightarrow> (int \<times> Search \<times> Position \<times> Move) option" where
  "negamax_root n ev st pos depth alpha beta best_move ply =
     (case should_check_time st of
        (True, st1) \<Rightarrow> Some (0, st1\<lparr> stop_search := True \<rparr>, pos, best_move)
      | (False, st1) \<Rightarrow>
          let st2 = st1\<lparr> nodes_searched := nodes_searched st1 + 1 \<rparr>;
              legal_moves = generate_legal_moves pos
          in if legal_moves = []
             then if is_in_check pos
                  then Some (- MATE_SCORE + int (move_count pos), st2, pos, best_move)
                  else Some (0, st2, pos, best_move)
             else case root_loop (negamax n ev) (order_moves st2 legal_moves pos Move_default)
                         st2 pos depth alpha beta ply (- INFINITY_SCORE) best_move of
                    None \<Rightarrow> None
                  | Some (score, mv, st3, pos3) \<Rightarrow> Some (score, st3, pos3, mv))"
section \<open>Concrete positions\<close>

text \<open>A position given by its board; the hash key is the from-scratch hash, as after
  \<open>load_fen\<close>.\<close>

definition with_hash :: "Position \<Rightarrow> Position" where
  "with_hash p = p\<lparr> hash_key := hash_position p \<rparr>"

text \<open>\<open>k1K5\<close> on the first rank with a black pawn on a2, White to move, reached by three
  moves from \<open>8/8/8/8/p7/8/8/1k1K4 w - - 0 1\<close> (Kd1-c1, Kb1-a1 and a4-a3 ... a3-a2 being
  the last): FEN \<open>8/8/8/8/8/8/p7/k1K5 w - - 0 3\<close> with three moves in the history.\<close>

definition corner_history :: "Move list" where
  "corner_history =
     [(mk_Move 11 3 Normal Piece_None)\<lparr> previous_en_passant_square := Square_None \<rparr>,
      (mk_Move 16 8 Normal Piece_None)\<lparr> previous_halfmove_clock := 1 \<rparr>,
      (mk_Move 3 2 Normal Piece_None)\<lparr> previous_halfmove_clock := 0 \<rparr>]"

definition corner_position :: Position where
  "corner_position = with_hash
     \<lparr> pieces = (\<lambda>c pt. if c = White \<and> pt = King then 4
                          else if c = Black \<and> pt = King then 1
                          else if c = Black \<and> pt = Pawn then 256 else 0),
       occupied_by_color = (\<lambda>c. if c = White then 4 else if c = Black then 257 else 0),
       occupied = 261,
       board = (\<lambda>sq. if sq = 2 then WhiteKing else if sq = 0 then BlackKing
                      else if sq = 8 then BlackPawn else Piece_None),
       side_to_move = White, castling_rights = 0, en_passant_square = Square_None,
       halfmove_clock = 1, fullmove_number = 3, move_history = corner_history,
       hash_key = 0 \<rparr>"

abbreviation (input) "Kc1d1 \<equiv> mk_Move 2 3 Normal Piece_None"
abbreviation (input) "Kc1c2 \<equiv> mk_Move 2 10 Normal Piece_None"
abbreviation (input) "Kc1d2 \<equiv> mk_Move 2 11 Normal Piece_None"

text \<open>The mate of the specification, \<open>R6k/8/7K/8/8/8/8/8\<close> with Black to move, reached
  from \<open>7k/8/7K/8/8/8/8/R7 w - - 0 1\<close> by the one move Ra1-a8: one move in the history.\<close>

definition mated_position :: Position where
  "mated_position = with_hash
     \<lparr> pieces = (\<lambda>c pt. if c = White \<and> pt = King then push_bit 47 1
                          else if c = White \<and> pt = Rook then push_bit 56 1
                          else if c = Black \<and> pt = King then push_bit 63 1 else 0),
       occupied_by_color = (\<lambda>c. if c = White then push_bit 47 1 OR push_bit 56 1
                                 else if c = Black then push_bit 63 1 else 0),
       occupied = push_bit 47 1 OR push_bit 56 1 OR push_bit 63 1,
       board = (\<lambda>sq. if sq = 47 then WhiteKing else if sq = 56 then WhiteRook
                      else if sq = 63 then BlackKing else Piece_None),
       side_to_move = Black, castling_rights = 0, en_passant_square = Square_None,
       halfmove_clock = 1, fullmove_number = 1,
       move_history = [mk_Move 0 56 Normal Piece_None],
       hash_key = 0 \<rparr>"

lemma corner_legal_moves: "generate_legal_moves corner_position = [Kc1d1, Kc1c2, Kc1d2]"
  by (simp add: chess_eval corner_position_def with_hash_def)

end
